theory Spec2Isabelle
  imports Main
begin

section \<open>The write path of liblog (liblog/logd\_write.c)\<close>

text \<open>
  The file keeps three pieces of process-wide state: the function pointer
  \<^verbatim>\<open>write_to_log\<close>, the descriptor table \<^verbatim>\<open>log_fds\<close> and the cached probe result
  \<^verbatim>\<open>g_log_status\<close>. Everything else it does is a call of the C library: \<^verbatim>\<open>open\<close>,
  \<^verbatim>\<open>close\<close>, \<^verbatim>\<open>writev\<close>, \<^verbatim>\<open>access\<close>, \<^verbatim>\<open>snprintf\<close> and the mutex. The model passes
  the state explicitly, records every system call in a trace and takes the answers of
  the system from a \<open>world\<close>: the k-th system call of the process is answered by
  \<open>w k\<close>, a pair of the call's return value and the value of \<^verbatim>\<open>errno\<close> after it.
  The model is sequential: one call of the library runs to its end before the next.
\<close>

subsection \<open>Constants of the headers\<close>

text \<open>
  Modelled from the spec: the enumeration \<^verbatim>\<open>log_id_t\<close> of the header log/log.h, which
  is not among the sources. The spec names the closed set of channels Main, Radio,
  Events, System, and the initialiser of \<^verbatim>\<open>log_fds\<close> in the source has one entry
  for each, so the identifiers are 0 to 3 in that order and \<^verbatim>\<open>LOG_ID_MAX\<close> is 4.
\<close>

definition LOG_ID_MAIN :: int where "LOG_ID_MAIN = 0"
definition LOG_ID_RADIO :: int where "LOG_ID_RADIO = 1"
definition LOG_ID_EVENTS :: int where "LOG_ID_EVENTS = 2"
definition LOG_ID_SYSTEM :: int where "LOG_ID_SYSTEM = 3"
definition LOG_ID_MAX :: int where "LOG_ID_MAX = 4"

lemmas log_id_defs =
  LOG_ID_MAIN_def LOG_ID_RADIO_def LOG_ID_EVENTS_def LOG_ID_SYSTEM_def LOG_ID_MAX_def

text \<open>
  Modelled from the spec: the device names of the header log/logger.h and the
  priority \<^verbatim>\<open>ANDROID_LOG_FATAL\<close> of android/log.h, neither among the sources. The
  spec calls them the fixed path of each channel and the highest defined priority; no
  proof below depends on the values chosen here.
\<close>

definition LOGGER_LOG_MAIN :: string where "LOGGER_LOG_MAIN = ''log/main''"
definition LOGGER_LOG_RADIO :: string where "LOGGER_LOG_RADIO = ''log/radio''"
definition LOGGER_LOG_EVENTS :: string where "LOGGER_LOG_EVENTS = ''log/events''"
definition LOGGER_LOG_SYSTEM :: string where "LOGGER_LOG_SYSTEM = ''log/system''"

definition ANDROID_LOG_FATAL :: int where "ANDROID_LOG_FATAL = 7"

text \<open>
  The error numbers of errno.h, with their Linux values. POSIX makes every error
  number positive, which is all that is used of \<^verbatim>\<open>EBADF\<close>.
\<close>

definition EINTR :: int where "EINTR = 4"
definition EBADF :: int where "EBADF = 9"

definition LOG_BUF_SIZE :: nat where "LOG_BUF_SIZE = 1024"

subsection \<open>C strings\<close>

text \<open>
  A \<^verbatim>\<open>const char *\<close> argument is modelled by the characters before its terminator
  (\<^verbatim>\<open>NULL\<close> by \<open>None\<close> where the code tests for it), so \<^verbatim>\<open>strlen\<close> is \<open>length\<close>.
  \<^verbatim>\<open>strcmp\<close> and \<^verbatim>\<open>strncmp\<close> are only ever compared with 0 in the source.
\<close>

definition NUL :: char where "NUL = CHR 0x00"

definition strcmp0 :: "string \<Rightarrow> string \<Rightarrow> bool" where
  "strcmp0 a b = (a = b)"

definition strncmp0 :: "string \<Rightarrow> string \<Rightarrow> nat \<Rightarrow> bool" where
  "strncmp0 a b n = (take n a = take n b)"

text \<open>
  \<^verbatim>\<open>snprintf(buf, size, ...)\<close> and \<^verbatim>\<open>vsnprintf\<close>: the second argument of the model is
  the full expansion of the format; the buffer receives at most \<open>n - 1\<close> of its
  characters and the terminator.
\<close>

definition snprintf :: "nat \<Rightarrow> string \<Rightarrow> string" where
  "snprintf n expansion = take (n - 1) expansion"

subsection \<open>State, system calls and outcomes\<close>

datatype write_fn = Fn_write_to_log_init | Fn_write_to_log_kernel | Fn_write_to_log_null

datatype log_status = kLogUninitialized | kLogNotAvailable | kLogAvailable

datatype syscall =
    Open string
  | Close int
  | Writev int "string list"
  | Access string

record state =
  write_to_log :: write_fn
  log_init_lock :: bool
  log_fds :: "int list"
  g_log_status :: log_status
  trace :: "syscall list"
  open_fds :: "int set"

text \<open>The static initialisers of the file; the process starts with no descriptor of the log.\<close>

definition initial_state :: state where
  "initial_state =
     \<lparr>write_to_log = Fn_write_to_log_init, log_init_lock = False,
      log_fds = [-1, -1, -1, -1], g_log_status = kLogUninitialized,
      trace = [], open_fds = {}\<rparr>"

type_synonym world = "nat \<Rightarrow> int \<times> int"

text \<open>An answer of the world that is a call interrupted by a signal.\<close>

definition interrupted :: "int \<times> int \<Rightarrow> bool" where
  "interrupted a = (fst a < 0 \<and> snd a = EINTR)"

text \<open>
  A call either returns a value and a state, or ends the process in a trap, or has
  undefined behaviour (a read outside \<^verbatim>\<open>log_fds\<close>), or never returns (a \<^verbatim>\<open>writev\<close>
  interrupted for ever, a mutex never released).
\<close>

datatype outcome = Returns int state | Trapped state | Undefined | Diverges

definition log_open :: "world \<Rightarrow> string \<Rightarrow> state \<Rightarrow> int \<times> state" where
  "log_open w pathname s =
     (let fd = fst (w (length (trace s)))
      in (fd, s\<lparr>trace := trace s @ [Open pathname],
                open_fds := (if 0 \<le> fd then insert fd (open_fds s) else open_fds s)\<rparr>))"

text \<open>The source ignores the result of \<^verbatim>\<open>close\<close>; the descriptor is released in any case.\<close>

definition log_close :: "int \<Rightarrow> state \<Rightarrow> state" where
  "log_close filedes s =
     s\<lparr>trace := trace s @ [Close filedes], open_fds := open_fds s - {filedes}\<rparr>"

definition log_writev :: "world \<Rightarrow> int \<Rightarrow> string list \<Rightarrow> state \<Rightarrow> (int \<times> int) \<times> state" where
  "log_writev w filedes vec s =
     (w (length (trace s)), s\<lparr>trace := trace s @ [Writev filedes vec]\<rparr>)"

definition access :: "world \<Rightarrow> string \<Rightarrow> state \<Rightarrow> int \<times> state" where
  "access w pathname s =
     (fst (w (length (trace s))), s\<lparr>trace := trace s @ [Access pathname]\<rparr>)"

definition pthread_mutex_lock :: "state \<Rightarrow> state option" where
  "pthread_mutex_lock s =
     (if log_init_lock s then None else Some (s\<lparr>log_init_lock := True\<rparr>))"

definition pthread_mutex_unlock :: "state \<Rightarrow> state" where
  "pthread_mutex_unlock s = s\<lparr>log_init_lock := False\<rparr>"

subsection \<open>\_\_android\_log\_dev\_available\<close>

definition android_log_dev_available :: "world \<Rightarrow> state \<Rightarrow> int \<times> state" where
  "android_log_dev_available w s =
     (let s' =
        (if g_log_status s = kLogUninitialized then
           (case access w (''/dev/'' @ LOGGER_LOG_MAIN) s of
              (r, s1) \<Rightarrow>
                if r = 0 then s1\<lparr>g_log_status := kLogAvailable\<rparr>
                else s1\<lparr>g_log_status := kLogNotAvailable\<rparr>)
         else s)
      in (if g_log_status s' = kLogAvailable then 1 else 0, s'))"

subsection \<open>The three dispatch functions\<close>

definition write_to_log_null :: "int \<Rightarrow> string list \<Rightarrow> state \<Rightarrow> outcome" where
  "write_to_log_null log_fd vec s = Returns (-1) s"

text \<open>
  The loop \<^verbatim>\<open>do ret = log_writev(...) while (ret < 0 && errno == EINTR)\<close>. It has no
  bound: where the world interrupts every attempt it does not return, which is the
  value \<open>None\<close>. \<^verbatim>\<open>errno\<close> is read only after a failed \<^verbatim>\<open>writev\<close>, which has just set it.
\<close>

partial_function (option) writev_retry ::
  "world \<Rightarrow> int \<Rightarrow> string list \<Rightarrow> state \<Rightarrow> (int \<times> state) option" where
  "writev_retry w log_fd vec s =
     (case log_writev w log_fd vec s of
        ((ret, errno), s') \<Rightarrow>
          if ret < 0 \<and> errno = EINTR then writev_retry w log_fd vec s'
          else Some (ret, s'))"

text \<open>
  \<^verbatim>\<open>__write_to_log_kernel\<close> holds the result of \<^verbatim>\<open>writev\<close> in \<^verbatim>\<open>ssize_t ret\<close> and
  returns it through \<^verbatim>\<open>int\<close>. Where \<^verbatim>\<open>ssize_t\<close> is wider than the 32 bits of \<^verbatim>\<open>int\<close>
  the conversion keeps the low 32 bits, read as a signed number; where the two types
  agree it changes nothing, as it changes no value that an \<^verbatim>\<open>int\<close> can hold.
\<close>

definition int_of_ssize_t :: "int \<Rightarrow> int" where
  "int_of_ssize_t v = (v + 2147483648) mod 4294967296 - 2147483648"

text \<open>
  The lower bound of the range check is commented out in the source, so a negative
  identifier reads before the start of \<^verbatim>\<open>log_fds\<close>: undefined behaviour. The value
  returned at or above \<^verbatim>\<open>LOG_ID_MAX\<close> is \<^verbatim>\<open>EBADF\<close> itself, a positive number. The loop
  tests \<open>ret\<close> as the \<^verbatim>\<open>ssize_t\<close> it is; only the value returned is converted.
\<close>

definition write_to_log_kernel :: "world \<Rightarrow> int \<Rightarrow> string list \<Rightarrow> state \<Rightarrow> outcome" where
  "write_to_log_kernel w log_id vec s =
     (if log_id < LOG_ID_MAX then
        (if 0 \<le> log_id then
           (case writev_retry w (log_fds s ! nat log_id) vec s of
              None \<Rightarrow> Diverges
            | Some (ret, s') \<Rightarrow> Returns (int_of_ssize_t ret) s')
         else Undefined)
      else Returns EBADF s)"

text \<open>\<^verbatim>\<open>log_fds[log_id] = log_open(pathname, O_WRONLY)\<close>\<close>

definition open_into :: "world \<Rightarrow> int \<Rightarrow> string \<Rightarrow> state \<Rightarrow> state" where
  "open_into w log_id pathname s =
     (case log_open w pathname s of
        (fd, s') \<Rightarrow> s'\<lparr>log_fds := (log_fds s')[nat log_id := fd]\<rparr>)"

text \<open>
  The block of \<^verbatim>\<open>__write_to_log_init\<close> that runs with the mutex held. It assigns the
  pointer before it looks at the descriptors, so when a device is missing the pointer is
  assigned twice: the kernel function first, the null function after the three calls of
  \<^verbatim>\<open>log_close\<close>. A sequential caller sees only the state in which the block ends.
\<close>

definition write_to_log_init_block :: "world \<Rightarrow> state \<Rightarrow> state" where
  "write_to_log_init_block w s0 =
     (let s1 = open_into w LOG_ID_MAIN (''/dev/'' @ LOGGER_LOG_MAIN) s0;
          s2 = open_into w LOG_ID_RADIO (''/dev/'' @ LOGGER_LOG_RADIO) s1;
          s3 = open_into w LOG_ID_EVENTS (''/dev/'' @ LOGGER_LOG_EVENTS) s2;
          s4 = open_into w LOG_ID_SYSTEM (''/dev/'' @ LOGGER_LOG_SYSTEM) s3;
          s5 = s4\<lparr>write_to_log := Fn_write_to_log_kernel\<rparr>;
          s6 =
            (if log_fds s5 ! nat LOG_ID_MAIN < 0 \<or> log_fds s5 ! nat LOG_ID_RADIO < 0 \<or>
                log_fds s5 ! nat LOG_ID_EVENTS < 0
             then
               (let c1 = log_close (log_fds s5 ! nat LOG_ID_MAIN) s5;
                    c2 = log_close (log_fds c1 ! nat LOG_ID_RADIO) c1;
                    c3 = log_close (log_fds c2 ! nat LOG_ID_EVENTS) c2;
                    c4 = c3\<lparr>log_fds := (log_fds c3)[nat LOG_ID_MAIN := -1]\<rparr>;
                    c5 = c4\<lparr>log_fds := (log_fds c4)[nat LOG_ID_RADIO := -1]\<rparr>;
                    c6 = c5\<lparr>log_fds := (log_fds c5)[nat LOG_ID_EVENTS := -1]\<rparr>
                in c6\<lparr>write_to_log := Fn_write_to_log_null\<rparr>)
             else s5)
      in (if log_fds s6 ! nat LOG_ID_SYSTEM < 0
          then s6\<lparr>log_fds := (log_fds s6)[nat LOG_ID_SYSTEM := log_fds s6 ! nat LOG_ID_MAIN]\<rparr>
          else s6))"

text \<open>
  The same block statement by statement: the list of the states after each of its
  statements, in the order in which they run. Its last state is the state in which the
  block ends. The caller of \<^verbatim>\<open>write_to_log\<close> reads the pointer without the mutex, so
  these are the states that a second thread can find while the first is in the block.
\<close>

definition write_to_log_init_steps :: "world \<Rightarrow> state \<Rightarrow> state list" where
  "write_to_log_init_steps w s0 =
     (let s1 = open_into w LOG_ID_MAIN (''/dev/'' @ LOGGER_LOG_MAIN) s0;
          s2 = open_into w LOG_ID_RADIO (''/dev/'' @ LOGGER_LOG_RADIO) s1;
          s3 = open_into w LOG_ID_EVENTS (''/dev/'' @ LOGGER_LOG_EVENTS) s2;
          s4 = open_into w LOG_ID_SYSTEM (''/dev/'' @ LOGGER_LOG_SYSTEM) s3;
          s5 = s4\<lparr>write_to_log := Fn_write_to_log_kernel\<rparr>;
          closing =
            (if log_fds s5 ! nat LOG_ID_MAIN < 0 \<or> log_fds s5 ! nat LOG_ID_RADIO < 0 \<or>
                log_fds s5 ! nat LOG_ID_EVENTS < 0
             then
               (let c1 = log_close (log_fds s5 ! nat LOG_ID_MAIN) s5;
                    c2 = log_close (log_fds c1 ! nat LOG_ID_RADIO) c1;
                    c3 = log_close (log_fds c2 ! nat LOG_ID_EVENTS) c2;
                    c4 = c3\<lparr>log_fds := (log_fds c3)[nat LOG_ID_MAIN := -1]\<rparr>;
                    c5 = c4\<lparr>log_fds := (log_fds c4)[nat LOG_ID_RADIO := -1]\<rparr>;
                    c6 = c5\<lparr>log_fds := (log_fds c5)[nat LOG_ID_EVENTS := -1]\<rparr>;
                    c7 = c6\<lparr>write_to_log := Fn_write_to_log_null\<rparr>
                in [c1, c2, c3, c4, c5, c6, c7])
             else []);
          s6 = last (s5 # closing);
          aliasing =
            (if log_fds s6 ! nat LOG_ID_SYSTEM < 0
             then [s6\<lparr>log_fds := (log_fds s6)[nat LOG_ID_SYSTEM := log_fds s6 ! nat LOG_ID_MAIN]\<rparr>]
             else [])
      in [s1, s2, s3, s4, s5] @ closing @ aliasing)"

text \<open>
  \<^verbatim>\<open>__write_to_log_init\<close>, with \<^verbatim>\<open>HAVE_PTHREADS\<close> defined. In a sequential run nobody
  can release a mutex that is held, so taking it then never returns. The function ends
  with a call through \<^verbatim>\<open>write_to_log\<close>, which by its type may be
  \<^verbatim>\<open>__write_to_log_init\<close> again. The termination proof shows that it never is: after the
  block the pointer is one of the other two functions.
\<close>

function write_to_log_init :: "world \<Rightarrow> int \<Rightarrow> string list \<Rightarrow> state \<Rightarrow> outcome" where
  "write_to_log_init w log_id vec s =
     (case pthread_mutex_lock s of
        None \<Rightarrow> Diverges
      | Some s1 \<Rightarrow>
          (let s2 = (if write_to_log s1 = Fn_write_to_log_init
                     then write_to_log_init_block w s1 else s1);
               s3 = pthread_mutex_unlock s2
           in (case write_to_log s3 of
                 Fn_write_to_log_init \<Rightarrow> write_to_log_init w log_id vec s3
               | Fn_write_to_log_kernel \<Rightarrow> write_to_log_kernel w log_id vec s3
               | Fn_write_to_log_null \<Rightarrow> write_to_log_null log_id vec s3)))"
  by pat_completeness auto
termination
proof (relation "{}")
  show "wf {}" by simp
next
  fix w :: world and log_id :: int and vec :: "string list" and s x2 x xa :: state
  assume locked: "pthread_mutex_lock s = Some x2"
    and x: "x = (if write_to_log x2 = Fn_write_to_log_init
                 then write_to_log_init_block w x2 else x2)"
    and xa: "xa = pthread_mutex_unlock x"
    and again: "write_to_log xa = Fn_write_to_log_init"
  have "write_to_log (write_to_log_init_block w x2) \<noteq> Fn_write_to_log_init"
    unfolding write_to_log_init_block_def Let_def by simp
  moreover have "write_to_log xa = write_to_log x"
    unfolding xa pthread_mutex_unlock_def by simp
  ultimately have False
    using x again by (cases "write_to_log x2 = Fn_write_to_log_init") simp_all
  then show "((w, log_id, vec, xa), w, log_id, vec, s) \<in> {}" ..
qed

text \<open>A call through the pointer: \<^verbatim>\<open>write_to_log(log_id, vec, nr)\<close>.\<close>

definition call_write_to_log :: "world \<Rightarrow> int \<Rightarrow> string list \<Rightarrow> state \<Rightarrow> outcome" where
  "call_write_to_log w log_id vec s =
     (case write_to_log s of
        Fn_write_to_log_init \<Rightarrow> write_to_log_init w log_id vec s
      | Fn_write_to_log_kernel \<Rightarrow> write_to_log_kernel w log_id vec s
      | Fn_write_to_log_null \<Rightarrow> write_to_log_null log_id vec s)"

subsection \<open>Text records\<close>

text \<open>The condition of \<^verbatim>\<open>__android_log_write\<close> that sends a tag to the radio log.\<close>

definition radio_tag_write :: "string \<Rightarrow> bool" where
  "radio_tag_write tag =
     (strcmp0 tag ''HTC_RIL'' \<or>
      strncmp0 tag ''RIL'' 3 \<or>
      strncmp0 tag ''IMS'' 3 \<or>
      strcmp0 tag ''AT'' \<or>
      strcmp0 tag ''GSM'' \<or>
      strcmp0 tag ''STK'' \<or>
      strcmp0 tag ''CDMA'' \<or>
      strcmp0 tag ''PHONE'' \<or>
      strcmp0 tag ''SMS'' \<or>
      strcmp0 tag ''KINETO'' \<or>
      strncmp0 tag ''KIPC'' 4 \<or>
      strncmp0 tag ''Kineto'' 6 \<or>
      strncmp0 tag ''QCRIL'' 5 \<or>
      strncmp0 tag ''QC-RIL'' 6 \<or>
      strncmp0 tag ''QC-QMI'' 6 \<or>
      strncmp0 tag ''QC-ONCRPC'' 9 \<or>
      strncmp0 tag ''QC-DSI'' 6 \<or>
      strcmp0 tag ''QC-NETMGR-LIB'' \<or>
      strcmp0 tag ''QC-QDP'' \<or>
      strcmp0 tag ''Diag_Lib'')"

text \<open>The tag part of the condition of \<^verbatim>\<open>__android_log_buf_write\<close>.\<close>

definition radio_tag_buf_write :: "string \<Rightarrow> bool" where
  "radio_tag_buf_write tag =
     (strcmp0 tag ''HTC_RIL'' \<or>
      strncmp0 tag ''RIL'' 3 \<or>
      strncmp0 tag ''IMS'' 3 \<or>
      strcmp0 tag ''AT'' \<or>
      strcmp0 tag ''GSM'' \<or>
      strcmp0 tag ''STK'' \<or>
      strcmp0 tag ''CDMA'' \<or>
      strcmp0 tag ''PHONE'' \<or>
      strcmp0 tag ''SMS'' \<or>
      strcmp0 tag ''KINETO'' \<or>
      strncmp0 tag ''KIPC'' 4 \<or>
      strncmp0 tag ''Kineto'' 6 \<or>
      strncmp0 tag ''QCRIL'' 5 \<or>
      strncmp0 tag ''QC-RIL'' 6 \<or>
      strncmp0 tag ''QC-QMI'' 6 \<or>
      strncmp0 tag ''QC-ONCRPC'' 9 \<or>
      strncmp0 tag ''QC-DSI'' 6)"

text \<open>
  The channel and the three \<^verbatim>\<open>iovec\<close> entries that \<^verbatim>\<open>__android_log_write\<close> hands to
  \<^verbatim>\<open>write_to_log\<close>. An entry is modelled by the bytes it covers: \<open>iov_len\<close> is its
  length. The first entry is the first byte of the \<^verbatim>\<open>int\<close> \<open>prio\<close>, its low byte on
  the little-endian targets of the library. \<open>msg\<close> is not \<^verbatim>\<open>NULL\<close>: the source
  passes it to \<^verbatim>\<open>strlen\<close> unchecked.
\<close>

definition android_log_write_vec :: "int \<Rightarrow> string option \<Rightarrow> string \<Rightarrow> int \<times> string list" where
  "android_log_write_vec prio tag0 msg =
     (let tag = (case tag0 of None \<Rightarrow> [] | Some t \<Rightarrow> t);
          (log_id, tag) =
            (if radio_tag_write tag
             then (LOG_ID_RADIO, snprintf 32 (''use-Rlog/RLOG-'' @ tag))
             else (LOG_ID_MAIN, tag))
      in (log_id, [[char_of prio], tag @ [NUL], msg @ [NUL]]))"

definition android_log_write :: "world \<Rightarrow> int \<Rightarrow> string option \<Rightarrow> string \<Rightarrow> state \<Rightarrow> outcome" where
  "android_log_write w prio tag msg s =
     (case android_log_write_vec prio tag msg of
        (log_id, vec) \<Rightarrow> call_write_to_log w log_id vec s)"

definition android_log_buf_write_vec ::
  "int \<Rightarrow> int \<Rightarrow> string option \<Rightarrow> string \<Rightarrow> int \<times> string list" where
  "android_log_buf_write_vec bufID0 prio tag0 msg =
     (let tag = (case tag0 of None \<Rightarrow> [] | Some t \<Rightarrow> t);
          (bufID, tag) =
            (if bufID0 \<noteq> LOG_ID_RADIO \<and> radio_tag_buf_write tag
             then (LOG_ID_RADIO, snprintf 32 (''use-Rlog/RLOG-'' @ tag))
             else (bufID0, tag))
      in (bufID, [[char_of prio], tag @ [NUL], msg @ [NUL]]))"

definition android_log_buf_write ::
  "world \<Rightarrow> int \<Rightarrow> int \<Rightarrow> string option \<Rightarrow> string \<Rightarrow> state \<Rightarrow> outcome" where
  "android_log_buf_write w bufID prio tag msg s =
     (case android_log_buf_write_vec bufID prio tag msg of
        (log_id, vec) \<Rightarrow> call_write_to_log w log_id vec s)"

text \<open>
  The \<^verbatim>\<open>printf\<close>-style entry points; \<open>expansion\<close> is what the format and its arguments
  expand to. \<^verbatim>\<open>__android_log_vprint\<close> and \<^verbatim>\<open>__android_log_print\<close> have the same body.
\<close>

definition android_log_print :: "world \<Rightarrow> int \<Rightarrow> string option \<Rightarrow> string \<Rightarrow> state \<Rightarrow> outcome" where
  "android_log_print w prio tag expansion s =
     android_log_write w prio tag (snprintf LOG_BUF_SIZE expansion) s"

definition android_log_buf_print ::
  "world \<Rightarrow> int \<Rightarrow> int \<Rightarrow> string option \<Rightarrow> string \<Rightarrow> state \<Rightarrow> outcome" where
  "android_log_buf_print w bufID prio tag expansion s =
     android_log_buf_write w bufID prio tag (snprintf LOG_BUF_SIZE expansion) s"

subsection \<open>\_\_android\_log\_assert\<close>

text \<open>The content of \<^verbatim>\<open>buf\<close> when \<^verbatim>\<open>__android_log_assert\<close> writes it.\<close>

definition android_log_assert_buf :: "string option \<Rightarrow> string option \<Rightarrow> string" where
  "android_log_assert_buf cond fmt =
     (case fmt of
        Some expansion \<Rightarrow> snprintf LOG_BUF_SIZE expansion
      | None \<Rightarrow>
          (case cond of
             Some c \<Rightarrow> snprintf LOG_BUF_SIZE (''Assertion failed: '' @ c)
           | None \<Rightarrow> ''Unspecified assertion failed''))"

text \<open>\<^verbatim>\<open>__builtin_trap()\<close> follows the write whatever it returned.\<close>

definition android_log_assert ::
  "world \<Rightarrow> string option \<Rightarrow> string option \<Rightarrow> string option \<Rightarrow> state \<Rightarrow> outcome" where
  "android_log_assert w cond tag fmt s =
     (case android_log_write w ANDROID_LOG_FATAL tag (android_log_assert_buf cond fmt) s of
        Returns r s' \<Rightarrow> Trapped s'
      | Trapped s' \<Rightarrow> Trapped s'
      | Undefined \<Rightarrow> Undefined
      | Diverges \<Rightarrow> Diverges)"

subsection \<open>Binary records\<close>

text \<open>The four bytes of an \<^verbatim>\<open>int32_t\<close> in memory, little-endian.\<close>

definition int32_bytes :: "int \<Rightarrow> string" where
  "int32_bytes v = map (\<lambda>i. char_of (v div 256 ^ i)) [0, 1, 2, 3]"

text \<open>\<open>payload\<close> stands for the \<open>len\<close> bytes at the pointer of that name.\<close>

definition android_log_bwrite :: "world \<Rightarrow> int \<Rightarrow> string \<Rightarrow> state \<Rightarrow> outcome" where
  "android_log_bwrite w tag payload s =
     call_write_to_log w LOG_ID_EVENTS [int32_bytes tag, payload] s"

definition android_log_btwrite :: "world \<Rightarrow> int \<Rightarrow> char \<Rightarrow> string \<Rightarrow> state \<Rightarrow> outcome" where
  "android_log_btwrite w tag type payload s =
     call_write_to_log w LOG_ID_EVENTS [int32_bytes tag, [type], payload] s"

subsection \<open>Sequences of calls\<close>

datatype api_call =
    Log_write int "string option" string
  | Log_buf_write int int "string option" string
  | Log_print int "string option" string
  | Log_buf_print int int "string option" string
  | Log_bwrite int string
  | Log_btwrite int char string
  | Log_assert "string option" "string option" "string option"
  | Log_dev_available

fun api_step :: "world \<Rightarrow> api_call \<Rightarrow> state \<Rightarrow> outcome" where
  "api_step w (Log_write prio tag msg) s = android_log_write w prio tag msg s"
| "api_step w (Log_buf_write bufID prio tag msg) s = android_log_buf_write w bufID prio tag msg s"
| "api_step w (Log_print prio tag expansion) s = android_log_print w prio tag expansion s"
| "api_step w (Log_buf_print bufID prio tag expansion) s =
     android_log_buf_print w bufID prio tag expansion s"
| "api_step w (Log_bwrite tag payload) s = android_log_bwrite w tag payload s"
| "api_step w (Log_btwrite tag type payload) s = android_log_btwrite w tag type payload s"
| "api_step w (Log_assert cond tag fmt) s = android_log_assert w cond tag fmt s"
| "api_step w Log_dev_available s =
     (case android_log_dev_available w s of (r, s') \<Rightarrow> Returns r s')"

text \<open>
  The state after a sequence of calls each of which returned; \<open>None\<close> when one of them
  did not return, after which the caller makes no further call.
\<close>

fun run :: "world \<Rightarrow> api_call list \<Rightarrow> state \<Rightarrow> state option" where
  "run w [] s = Some s"
| "run w (c # cs) s =
     (case api_step w c s of
        Returns r s' \<Rightarrow> run w cs s'
      | Trapped s' \<Rightarrow> None
      | Undefined \<Rightarrow> None
      | Diverges \<Rightarrow> None)"

text \<open>The paths that a trace opened, in order.\<close>

fun opened :: "syscall list \<Rightarrow> string list" where
  "opened [] = []"
| "opened (Open pathname # cs) = pathname # opened cs"
| "opened (c # cs) = opened cs"

text \<open>The four devices in the order in which \<^verbatim>\<open>__write_to_log_init\<close> opens them.\<close>

definition log_devices :: "string list" where
  "log_devices =
     [''/dev/'' @ LOGGER_LOG_MAIN, ''/dev/'' @ LOGGER_LOG_RADIO,
      ''/dev/'' @ LOGGER_LOG_EVENTS, ''/dev/'' @ LOGGER_LOG_SYSTEM]"

text \<open>
  The state in which \<^verbatim>\<open>__write_to_log_init\<close> makes its final call when it found the
  pointer unchanged: the mutex taken, the block run, the mutex released.
\<close>

definition first_call_state :: "world \<Rightarrow> state \<Rightarrow> state" where
  "first_call_state w s =
     pthread_mutex_unlock (write_to_log_init_block w (s\<lparr>log_init_lock := True\<rparr>))"

text \<open>
  Worlds for the examples below. In the first every system call fails with \<^verbatim>\<open>ENOENT\<close>
  (2). In the second the first call fails so and the k-th call after it returns k + 3:
  the main device is missing and the next three devices open as 4, 5 and 6.
\<close>

definition no_devices :: world where
  "no_devices k = (- 1, 2)"

definition main_device_missing :: world where
  "main_device_missing k = (if k = 0 then (- 1, 2) else (int k + 3, 0))"


text \<open>What no call changes once the pointer has left the initial function.\<close>

definition unchanged :: "state \<Rightarrow> state \<Rightarrow> bool" where
  "unchanged s s' =
     (write_to_log s' = write_to_log s \<and> log_fds s' = log_fds s \<and>
      log_init_lock s' = log_init_lock s \<and> open_fds s' = open_fds s \<and>
      opened (trace s') = opened (trace s))"

text \<open>
  The invariant of the dispatcher between calls: the mutex is free, and the devices have
  been opened exactly when the pointer has left the initial function, and then once.
\<close>

definition initialised_once :: "state \<Rightarrow> bool" where
  "initialised_once s =
     (\<not> log_init_lock s \<and>
      opened (trace s) = (if write_to_log s = Fn_write_to_log_init then [] else log_devices))"

section \<open>Facts about the system calls and the loop\<close>

declare write_to_log_init.simps [simp del]

lemma opened_append: "opened (xs @ ys) = opened xs @ opened ys"
  by (induction xs rule: opened.induct) simp_all

lemma open_into_simps:
  "write_to_log (open_into w i p s) = write_to_log s"
  "log_init_lock (open_into w i p s) = log_init_lock s"
  "g_log_status (open_into w i p s) = g_log_status s"
  "trace (open_into w i p s) = trace s @ [Open p]"
  "log_fds (open_into w i p s) = (log_fds s)[nat i := fst (w (length (trace s)))]"
  "open_fds (open_into w i p s) =
     (if 0 \<le> fst (w (length (trace s))) then insert (fst (w (length (trace s)))) (open_fds s)
      else open_fds s)"
  by (simp_all add: open_into_def log_open_def Let_def)

lemma log_close_simps:
  "write_to_log (log_close fd s) = write_to_log s"
  "log_init_lock (log_close fd s) = log_init_lock s"
  "g_log_status (log_close fd s) = g_log_status s"
  "trace (log_close fd s) = trace s @ [Close fd]"
  "log_fds (log_close fd s) = log_fds s"
  "open_fds (log_close fd s) = open_fds s - {fd}"
  by (simp_all add: log_close_def)

lemma block_not_init: "write_to_log (write_to_log_init_block w s) \<noteq> Fn_write_to_log_init"
  unfolding write_to_log_init_block_def Let_def by simp

lemma last_steps:
  "last ([a, b, c, d, t] @ (if C then [c1, c2, c3, c4, c5, c6, c7] else []) @
         (if D (last (t # (if C then [c1, c2, c3, c4, c5, c6, c7] else [])))
          then [A (last (t # (if C then [c1, c2, c3, c4, c5, c6, c7] else [])))] else [])) =
   (let s6 = (if C then c7 else t) in if D s6 then A s6 else s6)"
  by (simp add: Let_def)

lemma steps_last: "last (write_to_log_init_steps w s) = write_to_log_init_block w s"
  unfolding write_to_log_init_steps_def write_to_log_init_block_def Let_def
  by (rule last_steps
      [where D = "\<lambda>s6. log_fds s6 ! nat LOG_ID_SYSTEM < 0" and
        A = "\<lambda>s6. s6\<lparr>log_fds := (log_fds s6)[nat LOG_ID_SYSTEM := log_fds s6 ! nat LOG_ID_MAIN]\<rparr>",
        unfolded Let_def])

lemma block_status: "g_log_status (write_to_log_init_block w s) = g_log_status s"
  unfolding write_to_log_init_block_def Let_def by (simp add: open_into_simps log_close_simps)

lemma block_lock: "log_init_lock (write_to_log_init_block w s) = log_init_lock s"
  unfolding write_to_log_init_block_def Let_def by (simp add: open_into_simps log_close_simps)

lemma block_opened: "opened (trace (write_to_log_init_block w s)) = opened (trace s) @
   [''/dev/'' @ LOGGER_LOG_MAIN, ''/dev/'' @ LOGGER_LOG_RADIO, ''/dev/'' @ LOGGER_LOG_EVENTS, ''/dev/'' @ LOGGER_LOG_SYSTEM]"
  unfolding write_to_log_init_block_def Let_def by (simp add: open_into_simps log_close_simps opened_append)

lemma length4: "length xs = 4 \<Longrightarrow> \<exists>a b c d. xs = [a, b, c, d]"
  by (auto simp: eval_nat_numeral length_Suc_conv)

lemma nat_ids: "nat LOG_ID_MAIN = 0" "nat LOG_ID_RADIO = Suc 0" "nat LOG_ID_EVENTS = Suc (Suc 0)"
  "nat LOG_ID_SYSTEM = Suc (Suc (Suc 0))"
  by (simp_all add: log_id_defs eval_nat_numeral)

lemma block_fail:
  assumes len: "length (log_fds s) = 4"
    and fail: "fst (w (length (trace s))) < 0 \<or> fst (w (length (trace s) + 1)) < 0 \<or>
               fst (w (length (trace s) + 2)) < 0"
  shows "write_to_log (write_to_log_init_block w s) = Fn_write_to_log_null"
    and "log_fds (write_to_log_init_block w s) =
           [-1, -1, -1, if fst (w (length (trace s) + 3)) < 0 then -1 else fst (w (length (trace s) + 3))]"
    and "trace (write_to_log_init_block w s) = trace s @
           [Open (''/dev/'' @ LOGGER_LOG_MAIN), Open (''/dev/'' @ LOGGER_LOG_RADIO),
            Open (''/dev/'' @ LOGGER_LOG_EVENTS), Open (''/dev/'' @ LOGGER_LOG_SYSTEM),
            Close (fst (w (length (trace s)))), Close (fst (w (length (trace s) + 1))),
            Close (fst (w (length (trace s) + 2)))]"
proof -
  from len obtain a b c d where fds: "log_fds s = [a, b, c, d]"
    using length4 by blast
  show "write_to_log (write_to_log_init_block w s) = Fn_write_to_log_null"
    using fail unfolding write_to_log_init_block_def Let_def
    by (simp add: open_into_simps log_close_simps fds nat_ids numeral_2_eq_2 numeral_3_eq_3)
  show "log_fds (write_to_log_init_block w s) =
           [-1, -1, -1, if fst (w (length (trace s) + 3)) < 0 then -1 else fst (w (length (trace s) + 3))]"
    using fail unfolding write_to_log_init_block_def Let_def
    by (simp add: open_into_simps log_close_simps fds nat_ids numeral_2_eq_2 numeral_3_eq_3)
  show "trace (write_to_log_init_block w s) = trace s @
           [Open (''/dev/'' @ LOGGER_LOG_MAIN), Open (''/dev/'' @ LOGGER_LOG_RADIO),
            Open (''/dev/'' @ LOGGER_LOG_EVENTS), Open (''/dev/'' @ LOGGER_LOG_SYSTEM),
            Close (fst (w (length (trace s)))), Close (fst (w (length (trace s) + 1))),
            Close (fst (w (length (trace s) + 2)))]"
    using fail unfolding write_to_log_init_block_def Let_def
    by (simp add: open_into_simps log_close_simps fds nat_ids numeral_2_eq_2 numeral_3_eq_3)
qed

lemma writev_retry_unfold:
  "writev_retry w fd vec s =
     (if interrupted (w (length (trace s)))
      then writev_retry w fd vec (s\<lparr>trace := trace s @ [Writev fd vec]\<rparr>)
      else Some (fst (w (length (trace s))), s\<lparr>trace := trace s @ [Writev fd vec]\<rparr>))"
  by (subst writev_retry.simps) (simp add: log_writev_def interrupted_def split: prod.splits)

lemma writev_retry_returns:
  "(\<forall>i<n. interrupted (w (length (trace s) + i))) \<Longrightarrow>
   \<not> (interrupted (w (length (trace s) + n))) \<Longrightarrow>
   writev_retry w fd vec s =
     Some (fst (w (length (trace s) + n)),
           s\<lparr>trace := trace s @ replicate (Suc n) (Writev fd vec)\<rparr>)"
proof (induction n arbitrary: s)
  case 0
  then show ?case
    by (subst writev_retry_unfold) simp
next
  case (Suc n)
  let ?s1 = "s\<lparr>trace := trace s @ [Writev fd vec]\<rparr>"
  have first: "interrupted (w (length (trace s)))"
    using Suc.prems(1) [rule_format, of 0] by simp
  have rest: "\<forall>i<n. interrupted (w (length (trace ?s1) + i))"
  proof (intro allI impI)
    fix i assume "i < n"
    then have "Suc i < Suc n" by simp
    with Suc.prems(1) have "interrupted (w (length (trace s) + Suc i))"
      by blast
    then show "interrupted (w (length (trace ?s1) + i))"
      by simp
  qed
  have last: "\<not> (interrupted (w (length (trace ?s1) + n)))"
    using Suc.prems(2) by simp
  have "writev_retry w fd vec s = writev_retry w fd vec ?s1"
    using first by (subst writev_retry_unfold) simp
  also have "\<dots> = Some (fst (w (length (trace ?s1) + n)),
           ?s1\<lparr>trace := trace ?s1 @ replicate (Suc n) (Writev fd vec)\<rparr>)"
    by (rule Suc.IH [OF rest last])
  finally show ?case
    by (simp add: replicate_append_same)
qed

lemma writev_retry_Some:
  "writev_retry w fd vec s = Some y \<Longrightarrow>
     \<exists>n. (\<forall>i<n. interrupted (w (length (trace s) + i))) \<and>
         \<not> interrupted (w (length (trace s) + n)) \<and>
         y = (fst (w (length (trace s) + n)),
              s\<lparr>trace := trace s @ replicate (Suc n) (Writev fd vec)\<rparr>)"
proof (induction rule: writev_retry.raw_induct [rotated 1, consumes 1, case_names step])
  case (step retry w fd vec s y)
  let ?s1 = "s\<lparr>trace := trace s @ [Writev fd vec]\<rparr>"
  have body: "(if interrupted (w (length (trace s))) then retry w fd vec ?s1
               else Some (fst (w (length (trace s))), ?s1)) = Some y"
    using step(2) by (cases "w (length (trace s))") (auto simp: log_writev_def interrupted_def split: if_splits)
  show ?case
  proof (cases "interrupted (w (length (trace s)))")
    case True
    with body have "retry w fd vec ?s1 = Some y"
      by simp
    from step(1) [OF this] obtain n where
      n1: "\<forall>i<n. interrupted (w (length (trace ?s1) + i))" and
      n2: "\<not> interrupted (w (length (trace ?s1) + n))" and
      n3: "y = (fst (w (length (trace ?s1) + n)),
              ?s1\<lparr>trace := trace ?s1 @ replicate (Suc n) (Writev fd vec)\<rparr>)"
      by (elim exE conjE)
    have "\<forall>i<Suc n. interrupted (w (length (trace s) + i))"
    proof (intro allI impI)
      fix i assume i: "i < Suc n"
      show "interrupted (w (length (trace s) + i))"
      proof (cases i)
        case 0
        with True show ?thesis by simp
      next
        case (Suc j)
        with i have "j < n" by simp
        with n1 have "interrupted (w (length (trace ?s1) + j))"
          by blast
        with Suc show ?thesis by simp
      qed
    qed
    moreover have "\<not> interrupted (w (length (trace s) + Suc n))"
      using n2 by simp
    moreover have "y = (fst (w (length (trace s) + Suc n)),
              s\<lparr>trace := trace s @ replicate (Suc (Suc n)) (Writev fd vec)\<rparr>)"
      using n3 by (simp add: replicate_append_same)
    ultimately show ?thesis
      by (intro exI [of _ "Suc n"] conjI)
  next
    case False
    with body have "y = (fst (w (length (trace s))), ?s1)"
      by simp
    with False show ?thesis
      by (intro exI [of _ 0]) simp
  qed
qed


section \<open>Facts about the dispatch functions\<close>

lemma block_opened_devices:
  "opened (trace (write_to_log_init_block w s)) = opened (trace s) @ log_devices"
  by (simp add: block_opened log_devices_def)


lemma first_call_state_simps:
  "write_to_log (first_call_state w s) = write_to_log (write_to_log_init_block w (s\<lparr>log_init_lock := True\<rparr>))"
  "log_init_lock (first_call_state w s) = False"
  "g_log_status (first_call_state w s) = g_log_status s"
  "log_fds (first_call_state w s) = log_fds (write_to_log_init_block w (s\<lparr>log_init_lock := True\<rparr>))"
  "trace (first_call_state w s) = trace (write_to_log_init_block w (s\<lparr>log_init_lock := True\<rparr>))"
  "open_fds (first_call_state w s) = open_fds (write_to_log_init_block w (s\<lparr>log_init_lock := True\<rparr>))"
  by (simp_all add: first_call_state_def pthread_mutex_unlock_def block_status)

lemma first_call_state_not_init:
  "write_to_log (first_call_state w s) \<noteq> Fn_write_to_log_init"
  by (simp add: first_call_state_simps block_not_init)

lemma first_call_state_opened:
  "opened (trace (first_call_state w s)) = opened (trace s) @ log_devices"
  by (simp add: first_call_state_simps block_opened_devices)

lemma unlock_lock: "\<not> log_init_lock s \<Longrightarrow> pthread_mutex_unlock (s\<lparr>log_init_lock := True\<rparr>) = s"
  by (simp add: pthread_mutex_unlock_def)

lemma write_to_log_init_first:
  "\<not> log_init_lock s \<Longrightarrow> write_to_log s = Fn_write_to_log_init \<Longrightarrow>
   write_to_log_init w log_id vec s = call_write_to_log w log_id vec (first_call_state w s)"
  by (simp add: write_to_log_init.simps pthread_mutex_lock_def call_write_to_log_def
      first_call_state_def Let_def)

lemma write_to_log_init_recheck:
  "\<not> log_init_lock s \<Longrightarrow> write_to_log s \<noteq> Fn_write_to_log_init \<Longrightarrow>
   write_to_log_init w log_id vec s = call_write_to_log w log_id vec s"
  by (cases "write_to_log s")
    (simp_all add: write_to_log_init.simps pthread_mutex_lock_def call_write_to_log_def
      Let_def unlock_lock)

lemma write_to_log_init_locked:
  "log_init_lock s \<Longrightarrow> write_to_log_init w log_id vec s = Diverges"
  by (simp add: write_to_log_init.simps pthread_mutex_lock_def)

lemma opened_replicate_Writev: "opened (replicate n (Writev fd vec)) = []"
  by (induction n) simp_all

lemma write_to_log_kernel_Returns:
  assumes "write_to_log_kernel w log_id vec s = Returns r s'"
  shows "\<exists>n. s' = s\<lparr>trace := trace s @ replicate n (Writev (log_fds s ! nat log_id) vec)\<rparr>"
proof (cases "log_id < LOG_ID_MAX")
  case False
  with assms have "s' = s"
    by (simp add: write_to_log_kernel_def)
  then have "s' = s\<lparr>trace := trace s @ replicate 0 (Writev (log_fds s ! nat log_id) vec)\<rparr>"
    by simp
  then show ?thesis ..
next
  case True
  with assms obtain y where y: "writev_retry w (log_fds s ! nat log_id) vec s = Some y"
    and s': "s' = snd y"
    by (auto simp: write_to_log_kernel_def split: if_splits option.splits)
  from writev_retry_Some [OF y] obtain n where
    "y = (fst (w (length (trace s) + n)),
          s\<lparr>trace := trace s @ replicate (Suc n) (Writev (log_fds s ! nat log_id) vec)\<rparr>)"
    by (elim exE conjE)
  with s' have "s' = s\<lparr>trace := trace s @ replicate (Suc n) (Writev (log_fds s ! nat log_id) vec)\<rparr>"
    by simp
  then show ?thesis ..
qed

lemma call_Returns:
  assumes "write_to_log s \<noteq> Fn_write_to_log_init"
    and "call_write_to_log w log_id vec s = Returns r s'"
  shows "\<exists>n. s' = s\<lparr>trace := trace s @ replicate n (Writev (log_fds s ! nat log_id) vec)\<rparr>"
proof (cases "write_to_log s")
  case Fn_write_to_log_init
  with assms(1) show ?thesis by simp
next
  case Fn_write_to_log_kernel
  with assms(2) have "write_to_log_kernel w log_id vec s = Returns r s'"
    by (simp add: call_write_to_log_def)
  then show ?thesis by (rule write_to_log_kernel_Returns)
next
  case Fn_write_to_log_null
  with assms(2) have "s' = s"
    by (simp add: call_write_to_log_def write_to_log_null_def)
  then have "s' = s\<lparr>trace := trace s @ replicate 0 (Writev (log_fds s ! nat log_id) vec)\<rparr>"
    by simp
  then show ?thesis ..
qed

lemma call_unchanged:
  assumes "write_to_log s \<noteq> Fn_write_to_log_init"
    and "call_write_to_log w log_id vec s = Returns r s'"
  shows "unchanged s s'" and "g_log_status s' = g_log_status s"
proof -
  from call_Returns [OF assms] obtain n where
    "s' = s\<lparr>trace := trace s @ replicate n (Writev (log_fds s ! nat log_id) vec)\<rparr>" ..
  then show "unchanged s s'" and "g_log_status s' = g_log_status s"
    by (simp_all add: unchanged_def opened_append opened_replicate_Writev)
qed

lemma call_from_init:
  assumes "write_to_log s = Fn_write_to_log_init"
    and "call_write_to_log w log_id vec s = Returns r s'"
  shows "\<not> log_init_lock s"
    and "call_write_to_log w log_id vec (first_call_state w s) = Returns r s'"
proof -
  from assms have init: "write_to_log_init w log_id vec s = Returns r s'"
    by (simp add: call_write_to_log_def)
  then show free: "\<not> log_init_lock s"
    by (auto simp: write_to_log_init_locked)
  from write_to_log_init_first [OF free assms(1)] init
  show "call_write_to_log w log_id vec (first_call_state w s) = Returns r s'"
    by simp
qed

lemma call_lock_status:
  assumes "call_write_to_log w log_id vec s = Returns r s'"
  shows "log_init_lock s' = log_init_lock s" and "g_log_status s' = g_log_status s"
proof -
  have "log_init_lock s' = log_init_lock s \<and> g_log_status s' = g_log_status s"
  proof (cases "write_to_log s = Fn_write_to_log_init")
    case True
    note first = call_from_init [OF True assms]
    from call_unchanged [OF first_call_state_not_init first(2)] first(1)
    show ?thesis
      by (simp add: unchanged_def first_call_state_simps)
  next
    case False
    from call_unchanged [OF False assms] show ?thesis
      by (simp add: unchanged_def)
  qed
  then show "log_init_lock s' = log_init_lock s" and "g_log_status s' = g_log_status s"
    by simp_all
qed

lemma dev_available_cached:
  "g_log_status s \<noteq> kLogUninitialized \<Longrightarrow>
   android_log_dev_available w s = (if g_log_status s = kLogAvailable then 1 else 0, s)"
  by (simp add: android_log_dev_available_def)

lemma dev_available_first:
  "g_log_status s = kLogUninitialized \<Longrightarrow>
   android_log_dev_available w s =
     (if fst (w (length (trace s))) = 0 then 1 else 0,
      s\<lparr>trace := trace s @ [Access (''/dev/'' @ LOGGER_LOG_MAIN)],
        g_log_status := (if fst (w (length (trace s))) = 0 then kLogAvailable
                         else kLogNotAvailable)\<rparr>)"
  by (simp add: android_log_dev_available_def access_def)

lemma dev_available_Returns:
  assumes "android_log_dev_available w s = (r, s')"
  shows "unchanged s s'" and "g_log_status s' \<noteq> kLogUninitialized"
    and "r = (if g_log_status s' = kLogAvailable then 1 else 0)"
    and "g_log_status s \<noteq> kLogUninitialized \<Longrightarrow> s' = s"
proof -
  show "g_log_status s \<noteq> kLogUninitialized \<Longrightarrow> s' = s"
    using assms by (simp add: dev_available_cached)
  show "unchanged s s'"
    using assms
    by (cases "g_log_status s = kLogUninitialized")
      (auto simp: dev_available_first dev_available_cached unchanged_def opened_append)
  show "g_log_status s' \<noteq> kLogUninitialized"
    using assms
    by (cases "g_log_status s = kLogUninitialized")
      (auto simp: dev_available_first dev_available_cached split: if_splits)
  show "r = (if g_log_status s' = kLogAvailable then 1 else 0)"
    using assms
    by (cases "g_log_status s = kLogUninitialized")
      (auto simp: dev_available_first dev_available_cached split: if_splits)
qed

lemma api_step_Returns:
  assumes "api_step w c s = Returns r s'"
  shows "(\<exists>log_id vec. call_write_to_log w log_id vec s = Returns r s') \<or>
         (c = Log_dev_available \<and> android_log_dev_available w s = (r, s'))"
proof (cases c)
  case (Log_write prio tag msg)
  with assms show ?thesis
    by (auto simp: android_log_write_def split: prod.splits)
next
  case (Log_buf_write bufID prio tag msg)
  with assms show ?thesis
    by (auto simp: android_log_buf_write_def split: prod.splits)
next
  case (Log_print prio tag expansion)
  with assms show ?thesis
    by (auto simp: android_log_print_def android_log_write_def split: prod.splits)
next
  case (Log_buf_print bufID prio tag expansion)
  with assms show ?thesis
    by (auto simp: android_log_buf_print_def android_log_buf_write_def split: prod.splits)
next
  case (Log_bwrite tag payload)
  with assms show ?thesis
    by (auto simp: android_log_bwrite_def)
next
  case (Log_btwrite tag type payload)
  with assms show ?thesis
    by (auto simp: android_log_btwrite_def)
next
  case (Log_assert cond tag fmt)
  with assms show ?thesis
    by (simp add: android_log_assert_def split: outcome.splits)
next
  case Log_dev_available
  with assms show ?thesis
    by (simp split: prod.splits)
qed

lemma api_step_unchanged:
  assumes "write_to_log s \<noteq> Fn_write_to_log_init" and "api_step w c s = Returns r s'"
  shows "unchanged s s'"
  using api_step_Returns [OF assms(2)] assms(1)
  by (auto dest: call_unchanged(1) dev_available_Returns(1))

lemma api_step_status:
  assumes "g_log_status s \<noteq> kLogUninitialized" and "api_step w c s = Returns r s'"
  shows "g_log_status s' = g_log_status s"
  using api_step_Returns [OF assms(2)] assms(1)
  by (auto dest: call_lock_status(2) dev_available_Returns(4))

lemma api_step_lock:
  assumes "api_step w c s = Returns r s'"
  shows "log_init_lock s' = log_init_lock s"
  using api_step_Returns [OF assms]
  by (auto dest: call_lock_status(1) dev_available_Returns(1) simp: unchanged_def)

lemma run_unchanged:
  "write_to_log s \<noteq> Fn_write_to_log_init \<Longrightarrow> run w cs s = Some s' \<Longrightarrow> unchanged s s'"
proof (induction cs arbitrary: s)
  case Nil
  then show ?case by (simp add: unchanged_def)
next
  case (Cons c cs)
  from Cons.prems(2) obtain r s1 where step: "api_step w c s = Returns r s1"
    and rest: "run w cs s1 = Some s'"
    by (auto split: outcome.splits)
  from api_step_unchanged [OF Cons.prems(1) step] have u: "unchanged s s1" .
  with Cons.prems(1) have "write_to_log s1 \<noteq> Fn_write_to_log_init"
    by (simp add: unchanged_def)
  from Cons.IH [OF this rest] u show ?case
    by (simp add: unchanged_def)
qed

lemma run_status:
  "g_log_status s \<noteq> kLogUninitialized \<Longrightarrow> run w cs s = Some s' \<Longrightarrow>
   g_log_status s' = g_log_status s"
proof (induction cs arbitrary: s)
  case Nil
  then show ?case by simp
next
  case (Cons c cs)
  from Cons.prems(2) obtain r s1 where step: "api_step w c s = Returns r s1"
    and rest: "run w cs s1 = Some s'"
    by (auto split: outcome.splits)
  from api_step_status [OF Cons.prems(1) step] have u: "g_log_status s1 = g_log_status s" .
  with Cons.prems(1) have "g_log_status s1 \<noteq> kLogUninitialized"
    by simp
  from Cons.IH [OF this rest] u show ?case
    by simp
qed

lemma api_step_once:
  assumes inv: "initialised_once s" and step: "api_step w c s = Returns r s'"
  shows "initialised_once s'"
proof -
  from api_step_Returns [OF step] show ?thesis
  proof (elim disjE exE conjE)
    fix log_id vec
    assume call: "call_write_to_log w log_id vec s = Returns r s'"
    show ?thesis
    proof (cases "write_to_log s = Fn_write_to_log_init")
      case True
      note first = call_from_init [OF True call]
      from call_unchanged(1) [OF first_call_state_not_init first(2)]
      have "unchanged (first_call_state w s) s'" .
      with inv True show ?thesis
        by (simp add: unchanged_def initialised_once_def first_call_state_simps(2)
            first_call_state_not_init first_call_state_opened)
    next
      case False
      from call_unchanged(1) [OF False call] inv False show ?thesis
        by (simp add: unchanged_def initialised_once_def)
    qed
  next
    assume "android_log_dev_available w s = (r, s')"
    from dev_available_Returns(1) [OF this] inv show ?thesis
      by (simp add: unchanged_def initialised_once_def)
  qed
qed

lemma run_once:
  "initialised_once s \<Longrightarrow> run w cs s = Some s' \<Longrightarrow> initialised_once s'"
proof (induction cs arbitrary: s)
  case Nil
  then show ?case by simp
next
  case (Cons c cs)
  from Cons.prems(2) obtain r s1 where step: "api_step w c s = Returns r s1"
    and rest: "run w cs s1 = Some s'"
    by (auto split: outcome.splits)
  from Cons.IH [OF api_step_once [OF Cons.prems(1) step] rest] show ?case .
qed

lemma initial_state_once: "initialised_once initial_state"
  by (simp add: initialised_once_def initial_state_def)

section \<open>Facts about the entry points\<close>

lemma write_to_log_kernel_returns:
  assumes "0 \<le> log_id" and "log_id < LOG_ID_MAX"
    and "\<forall>i<n. interrupted (w (length (trace s) + i))"
    and "\<not> interrupted (w (length (trace s) + n))"
  shows "write_to_log_kernel w log_id vec s =
     Returns (int_of_ssize_t (fst (w (length (trace s) + n))))
       (s\<lparr>trace := trace s @ replicate (Suc n) (Writev (log_fds s ! nat log_id) vec)\<rparr>)"
  using assms(1,2) writev_retry_returns [OF assms(3,4)]
  by (simp add: write_to_log_kernel_def)


lemma radio_tag_buf_write_imp: "radio_tag_buf_write tag \<Longrightarrow> radio_tag_write tag"
  by (simp add: radio_tag_buf_write_def radio_tag_write_def) blast

lemma write_vec_channel:
  "fst (android_log_write_vec prio tag msg) = LOG_ID_MAIN \<or>
   fst (android_log_write_vec prio tag msg) = LOG_ID_RADIO"
  by (simp add: android_log_write_vec_def Let_def split: prod.splits)

lemma write_vec_segments:
  "snd (android_log_write_vec prio (Some tag) msg) =
     [[char_of prio],
      (if radio_tag_write tag then snprintf 32 (''use-Rlog/RLOG-'' @ tag) else tag) @ [NUL],
      msg @ [NUL]]"
  by (simp add: android_log_write_vec_def)

lemma buf_write_vec_segments:
  "snd (android_log_buf_write_vec bufID prio (Some tag) msg) =
     [[char_of prio],
      (if bufID \<noteq> LOG_ID_RADIO \<and> radio_tag_buf_write tag
       then snprintf 32 (''use-Rlog/RLOG-'' @ tag) else tag) @ [NUL],
      msg @ [NUL]]"
  by (simp add: android_log_buf_write_vec_def)

lemmas tag_tests = radio_tag_write_def radio_tag_buf_write_def strcmp0_def strncmp0_def

section \<open>Properties of the write path\<close>

text \<open>
  C6: a text record is framed as exactly three segments in order: one byte of priority,
  the tag with its terminator, the message with its terminator. For priority 4, tag "X"
  and message "hello" the segments have the lengths 1, 2 and 6. A null tag is framed as
  the empty string. (A tag on the radio list is first replaced, which is claim C5.)
\<close>

theorem C6_text_record_framing:
  "snd (android_log_write_vec prio (Some tag) msg) =
     [[char_of prio],
      (if radio_tag_write tag then snprintf 32 (''use-Rlog/RLOG-'' @ tag) else tag) @ [NUL],
      msg @ [NUL]] \<and>
   map length (snd (android_log_write_vec prio (Some tag) msg)) =
     [1,
      length (if radio_tag_write tag then snprintf 32 (''use-Rlog/RLOG-'' @ tag) else tag) + 1,
      length msg + 1] \<and>
   android_log_write_vec 4 (Some ''X'') ''hello'' =
     (LOG_ID_MAIN, [[char_of (4 :: int)], ''X'' @ [NUL], ''hello'' @ [NUL]]) \<and>
   map length (snd (android_log_write_vec 4 (Some ''X'') ''hello'')) = [1, 2, 6] \<and>
   android_log_write_vec prio None msg = android_log_write_vec prio (Some []) msg \<and>
   android_log_write_vec prio None msg = (LOG_ID_MAIN, [[char_of prio], [NUL], msg @ [NUL]])"
proof (intro conjI)
  show "snd (android_log_write_vec prio (Some tag) msg) =
     [[char_of prio],
      (if radio_tag_write tag then snprintf 32 (''use-Rlog/RLOG-'' @ tag) else tag) @ [NUL],
      msg @ [NUL]]"
    by (rule write_vec_segments)
  then show "map length (snd (android_log_write_vec prio (Some tag) msg)) =
     [1,
      length (if radio_tag_write tag then snprintf 32 (''use-Rlog/RLOG-'' @ tag) else tag) + 1,
      length msg + 1]"
    by simp
  show x: "android_log_write_vec 4 (Some ''X'') ''hello'' =
     (LOG_ID_MAIN, [[char_of (4 :: int)], ''X'' @ [NUL], ''hello'' @ [NUL]])"
    by (simp add: android_log_write_vec_def tag_tests)
  show "map length (snd (android_log_write_vec 4 (Some ''X'') ''hello'')) = [1, 2, 6]"
    by (simp add: x)
  show "android_log_write_vec prio None msg = android_log_write_vec prio (Some []) msg"
    by (simp add: android_log_write_vec_def)
  show "android_log_write_vec prio None msg = (LOG_ID_MAIN, [[char_of prio], [NUL], msg @ [NUL]])"
    by (simp add: android_log_write_vec_def tag_tests)
qed

theorem C6_text_record_framing_witness:
  "snd (android_log_write_vec 6 (Some ''GSM'') ''no service'') =
     [[char_of (6 :: int)], ''use-Rlog/RLOG-GSM'' @ [NUL], ''no service'' @ [NUL]] \<and>
   map length (snd (android_log_write_vec 6 (Some ''GSM'') ''no service'')) = [1, 18, 11]"
  using C6_text_record_framing [of 6 "''GSM''" "''no service''"]
  by (simp add: tag_tests snprintf_def)

text \<open>
  C5: for the tag "RIL-foo" and the requested channel Main the write goes to the radio
  channel under the tag "use-Rlog/RLOG-RIL-foo". For every tag on the list the new tag
  is the marker "use-Rlog/RLOG-" followed by the tag, cut to the 31 characters that fit
  the buffer of 32 bytes before the terminator: a tag of 18 or more characters keeps its
  first 17, and the segment written is then exactly 32 bytes and ends in the terminator.
\<close>

theorem C5_radio_tag_rewritten:
  "android_log_buf_write_vec LOG_ID_MAIN prio (Some ''RIL-foo'') msg =
     (LOG_ID_RADIO, [[char_of prio], ''use-Rlog/RLOG-RIL-foo'' @ [NUL], msg @ [NUL]]) \<and>
   android_log_write_vec prio (Some ''RIL-foo'') msg =
     (LOG_ID_RADIO, [[char_of prio], ''use-Rlog/RLOG-RIL-foo'' @ [NUL], msg @ [NUL]]) \<and>
   (radio_tag_write tag \<longrightarrow>
      android_log_write_vec prio (Some tag) msg =
        (LOG_ID_RADIO,
         [[char_of prio], take 31 (''use-Rlog/RLOG-'' @ tag) @ [NUL], msg @ [NUL]])) \<and>
   (radio_tag_buf_write tag \<and> bufID \<noteq> LOG_ID_RADIO \<longrightarrow>
      android_log_buf_write_vec bufID prio (Some tag) msg =
        (LOG_ID_RADIO,
         [[char_of prio], take 31 (''use-Rlog/RLOG-'' @ tag) @ [NUL], msg @ [NUL]])) \<and>
   length (take 31 (''use-Rlog/RLOG-'' @ tag) @ [NUL]) \<le> 32 \<and>
   (18 \<le> length tag \<longrightarrow>
      take 31 (''use-Rlog/RLOG-'' @ tag) @ [NUL] = ''use-Rlog/RLOG-'' @ take 17 tag @ [NUL] \<and>
      length (take 31 (''use-Rlog/RLOG-'' @ tag) @ [NUL]) = 32) \<and>
   (length tag < 18 \<longrightarrow>
      take 31 (''use-Rlog/RLOG-'' @ tag) @ [NUL] = ''use-Rlog/RLOG-'' @ tag @ [NUL])"
proof (intro conjI impI)
  show "android_log_buf_write_vec LOG_ID_MAIN prio (Some ''RIL-foo'') msg =
     (LOG_ID_RADIO, [[char_of prio], ''use-Rlog/RLOG-RIL-foo'' @ [NUL], msg @ [NUL]])"
    by (simp add: android_log_buf_write_vec_def tag_tests snprintf_def log_id_defs)
  show "android_log_write_vec prio (Some ''RIL-foo'') msg =
     (LOG_ID_RADIO, [[char_of prio], ''use-Rlog/RLOG-RIL-foo'' @ [NUL], msg @ [NUL]])"
    by (simp add: android_log_write_vec_def tag_tests snprintf_def)
  show "android_log_write_vec prio (Some tag) msg =
        (LOG_ID_RADIO,
         [[char_of prio], take 31 (''use-Rlog/RLOG-'' @ tag) @ [NUL], msg @ [NUL]])"
    if "radio_tag_write tag"
    using that by (simp add: android_log_write_vec_def snprintf_def)
  show "android_log_buf_write_vec bufID prio (Some tag) msg =
        (LOG_ID_RADIO,
         [[char_of prio], take 31 (''use-Rlog/RLOG-'' @ tag) @ [NUL], msg @ [NUL]])"
    if "radio_tag_buf_write tag \<and> bufID \<noteq> LOG_ID_RADIO"
    using that by (simp add: android_log_buf_write_vec_def snprintf_def)
  show "length (take 31 (''use-Rlog/RLOG-'' @ tag) @ [NUL]) \<le> 32"
    by simp
  show "take 31 (''use-Rlog/RLOG-'' @ tag) @ [NUL] = ''use-Rlog/RLOG-'' @ take 17 tag @ [NUL]"
    if "18 \<le> length tag"
    by simp
  show "length (take 31 (''use-Rlog/RLOG-'' @ tag) @ [NUL]) = 32"
    if "18 \<le> length tag"
    using that by simp
  show "take 31 (''use-Rlog/RLOG-'' @ tag) @ [NUL] = ''use-Rlog/RLOG-'' @ tag @ [NUL]"
    if "length tag < 18"
    using that by simp
qed

theorem C5_radio_tag_rewritten_witness:
  "radio_tag_write ''QC-ONCRPC-0123456789'' \<and>
   radio_tag_buf_write ''QC-ONCRPC-0123456789'' \<and> LOG_ID_SYSTEM \<noteq> LOG_ID_RADIO \<and>
   18 \<le> length ''QC-ONCRPC-0123456789'' \<and>
   android_log_write_vec 5 (Some ''QC-ONCRPC-0123456789'') ''m'' =
     (LOG_ID_RADIO, [[char_of (5 :: int)], ''use-Rlog/RLOG-QC-ONCRPC-0123456'' @ [NUL], ''m'' @ [NUL]]) \<and>
   android_log_buf_write_vec LOG_ID_SYSTEM 5 (Some ''QC-ONCRPC-0123456789'') ''m'' =
     (LOG_ID_RADIO, [[char_of (5 :: int)], ''use-Rlog/RLOG-QC-ONCRPC-0123456'' @ [NUL], ''m'' @ [NUL]]) \<and>
   length (''use-Rlog/RLOG-QC-ONCRPC-0123456'' @ [NUL]) = 32 \<and>
   radio_tag_write ''GSM'' \<and> length ''GSM'' < 18 \<and>
   android_log_write_vec 5 (Some ''GSM'') ''m'' =
     (LOG_ID_RADIO, [[char_of (5 :: int)], ''use-Rlog/RLOG-GSM'' @ [NUL], ''m'' @ [NUL]])"
proof -
  have a: "radio_tag_write ''QC-ONCRPC-0123456789''"
    by (simp add: tag_tests)
  have b: "radio_tag_buf_write ''QC-ONCRPC-0123456789'' \<and> LOG_ID_SYSTEM \<noteq> LOG_ID_RADIO"
    by (simp add: tag_tests log_id_defs)
  have c: "18 \<le> length ''QC-ONCRPC-0123456789''"
    by simp
  have d: "radio_tag_write ''GSM''" and e: "length ''GSM'' < 18"
    by (simp_all add: tag_tests)
  from a b c d e
    C5_radio_tag_rewritten [of 5 "''m''" "''QC-ONCRPC-0123456789''" LOG_ID_SYSTEM]
    C5_radio_tag_rewritten [of 5 "''m''" "''GSM''" LOG_ID_SYSTEM]
  show ?thesis
    by simp
qed

text \<open>
  C10: the two text entry points test different lists. The tags "QC-NETMGR-LIB",
  "QC-QDP" and "Diag_Lib" are on the list of \<^verbatim>\<open>__android_log_write\<close> only: whatever the
  priority and the message, \<^verbatim>\<open>__android_log_write\<close> sends them to the radio channel under
  the rewritten tag, and \<^verbatim>\<open>__android_log_buf_write\<close> called for the main channel leaves
  the channel and the tag as they are.
\<close>

theorem C10_lists_differ:
  "android_log_write w prio (Some ''QC-NETMGR-LIB'') msg s =
     call_write_to_log w LOG_ID_RADIO
       [[char_of prio], ''use-Rlog/RLOG-QC-NETMGR-LIB'' @ [NUL], msg @ [NUL]] s \<and>
   android_log_write w prio (Some ''QC-QDP'') msg s =
     call_write_to_log w LOG_ID_RADIO
       [[char_of prio], ''use-Rlog/RLOG-QC-QDP'' @ [NUL], msg @ [NUL]] s \<and>
   android_log_write w prio (Some ''Diag_Lib'') msg s =
     call_write_to_log w LOG_ID_RADIO
       [[char_of prio], ''use-Rlog/RLOG-Diag_Lib'' @ [NUL], msg @ [NUL]] s \<and>
   android_log_buf_write w LOG_ID_MAIN prio (Some ''QC-NETMGR-LIB'') msg s =
     call_write_to_log w LOG_ID_MAIN [[char_of prio], ''QC-NETMGR-LIB'' @ [NUL], msg @ [NUL]] s \<and>
   android_log_buf_write w LOG_ID_MAIN prio (Some ''QC-QDP'') msg s =
     call_write_to_log w LOG_ID_MAIN [[char_of prio], ''QC-QDP'' @ [NUL], msg @ [NUL]] s \<and>
   android_log_buf_write w LOG_ID_MAIN prio (Some ''Diag_Lib'') msg s =
     call_write_to_log w LOG_ID_MAIN [[char_of prio], ''Diag_Lib'' @ [NUL], msg @ [NUL]] s \<and>
   LOG_ID_MAIN \<noteq> LOG_ID_RADIO"
proof (intro conjI)
  show "android_log_write w prio (Some ''QC-NETMGR-LIB'') msg s =
     call_write_to_log w LOG_ID_RADIO
       [[char_of prio], ''use-Rlog/RLOG-QC-NETMGR-LIB'' @ [NUL], msg @ [NUL]] s"
    by (simp add: android_log_write_def android_log_write_vec_def tag_tests snprintf_def)
  show "android_log_write w prio (Some ''QC-QDP'') msg s =
     call_write_to_log w LOG_ID_RADIO
       [[char_of prio], ''use-Rlog/RLOG-QC-QDP'' @ [NUL], msg @ [NUL]] s"
    by (simp add: android_log_write_def android_log_write_vec_def tag_tests snprintf_def)
  show "android_log_write w prio (Some ''Diag_Lib'') msg s =
     call_write_to_log w LOG_ID_RADIO
       [[char_of prio], ''use-Rlog/RLOG-Diag_Lib'' @ [NUL], msg @ [NUL]] s"
    by (simp add: android_log_write_def android_log_write_vec_def tag_tests snprintf_def)
  show "android_log_buf_write w LOG_ID_MAIN prio (Some ''QC-NETMGR-LIB'') msg s =
     call_write_to_log w LOG_ID_MAIN [[char_of prio], ''QC-NETMGR-LIB'' @ [NUL], msg @ [NUL]] s"
    by (simp add: android_log_buf_write_def android_log_buf_write_vec_def tag_tests)
  show "android_log_buf_write w LOG_ID_MAIN prio (Some ''QC-QDP'') msg s =
     call_write_to_log w LOG_ID_MAIN [[char_of prio], ''QC-QDP'' @ [NUL], msg @ [NUL]] s"
    by (simp add: android_log_buf_write_def android_log_buf_write_vec_def tag_tests)
  show "android_log_buf_write w LOG_ID_MAIN prio (Some ''Diag_Lib'') msg s =
     call_write_to_log w LOG_ID_MAIN [[char_of prio], ''Diag_Lib'' @ [NUL], msg @ [NUL]] s"
    by (simp add: android_log_buf_write_def android_log_buf_write_vec_def tag_tests)
  show "LOG_ID_MAIN \<noteq> LOG_ID_RADIO"
    by (simp add: log_id_defs)
qed

text \<open>
  In a live dispatcher whose next \<^verbatim>\<open>writev\<close> is not interrupted, the same record with the
  tag "QC-QDP" is written to the descriptor of the radio channel by the one entry
  point and to that of the main channel by the other.
\<close>

theorem C10_lists_differ_witness:
  "android_log_write (\<lambda>k. (9, 0)) 4 (Some ''QC-QDP'') ''up''
     \<lparr>write_to_log = Fn_write_to_log_kernel, log_init_lock = False, log_fds = [3, 4, 5, 6],
      g_log_status = kLogUninitialized, trace = [], open_fds = {3, 4, 5, 6}\<rparr> =
   Returns 9
     \<lparr>write_to_log = Fn_write_to_log_kernel, log_init_lock = False, log_fds = [3, 4, 5, 6],
      g_log_status = kLogUninitialized,
      trace = [Writev 4 [[char_of (4 :: int)], ''use-Rlog/RLOG-QC-QDP'' @ [NUL], ''up'' @ [NUL]]],
      open_fds = {3, 4, 5, 6}\<rparr> \<and>
   android_log_buf_write (\<lambda>k. (9, 0)) LOG_ID_MAIN 4 (Some ''QC-QDP'') ''up''
     \<lparr>write_to_log = Fn_write_to_log_kernel, log_init_lock = False, log_fds = [3, 4, 5, 6],
      g_log_status = kLogUninitialized, trace = [], open_fds = {3, 4, 5, 6}\<rparr> =
   Returns 9
     \<lparr>write_to_log = Fn_write_to_log_kernel, log_init_lock = False, log_fds = [3, 4, 5, 6],
      g_log_status = kLogUninitialized,
      trace = [Writev 3 [[char_of (4 :: int)], ''QC-QDP'' @ [NUL], ''up'' @ [NUL]]],
      open_fds = {3, 4, 5, 6}\<rparr>"
  using C10_lists_differ [of "\<lambda>k. (9, 0)" 4 "''up''"
      "\<lparr>write_to_log = Fn_write_to_log_kernel, log_init_lock = False, log_fds = [3, 4, 5, 6],
        g_log_status = kLogUninitialized, trace = [], open_fds = {3, 4, 5, 6}\<rparr>"]
  by (simp add: call_write_to_log_def write_to_log_kernel_def int_of_ssize_t_def log_id_defs writev_retry_unfold
      interrupted_def)

lemma assert_buf_cond_length:
  "length (android_log_assert_buf (Some (replicate 1006 (CHR ''a''))) None) = 1023"
  by (simp add: android_log_assert_buf_def snprintf_def LOG_BUF_SIZE_def)

text \<open>
  C7 as stated fails: the message made from a condition goes through \<^verbatim>\<open>snprintf\<close> with the
  size of the buffer like the formatted one, so a condition of 1006 characters does not
  give "Assertion failed: " followed by the condition, which would have 1024 characters,
  but its first 1023.
\<close>

theorem C7_counterexample:
  "android_log_assert_buf (Some (replicate 1006 (CHR ''a''))) None \<noteq>
     ''Assertion failed: '' @ replicate 1006 (CHR ''a'')"
proof
  assume "android_log_assert_buf (Some (replicate 1006 (CHR ''a''))) None =
     ''Assertion failed: '' @ replicate 1006 (CHR ''a'')"
  then have "length (android_log_assert_buf (Some (replicate 1006 (CHR ''a''))) None) =
     length (''Assertion failed: '' @ replicate 1006 (CHR ''a''))"
    by (rule arg_cong)
  then show False
    by (simp add: assert_buf_cond_length)
qed

lemma android_log_write_once:
  assumes live: "write_to_log s = Fn_write_to_log_kernel"
    and answer: "\<not> interrupted (w (length (trace s)))"
  shows "android_log_write w prio tag msg s =
     Returns (int_of_ssize_t (fst (w (length (trace s)))))
       (s\<lparr>trace := trace s @
            [Writev (log_fds s ! nat (fst (android_log_write_vec prio tag msg)))
               (snd (android_log_write_vec prio tag msg))]\<rparr>)"
proof -
  obtain log_id vec where v: "android_log_write_vec prio tag msg = (log_id, vec)"
    by (cases "android_log_write_vec prio tag msg")
  from write_vec_channel [of prio tag msg] v have range: "0 \<le> log_id" "log_id < LOG_ID_MAX"
    by (auto simp: log_id_defs)
  have "\<forall>i<0. interrupted (w (length (trace s) + i))"
    by simp
  from write_to_log_kernel_returns [OF range this, where vec = vec] answer live v
  show ?thesis
    by (simp add: android_log_write_def call_write_to_log_def)
qed

text \<open>
  C7, amended: \<^verbatim>\<open>__android_log_assert\<close> composes its message from the format if there is
  one, else from the condition as "Assertion failed: " followed by the condition, both
  cut to the 1023 characters that fit the buffer of 1024 bytes (so a condition of at most
  1005 characters appears whole, and "x>0" gives "Assertion failed: x>0"), else as
  "Unspecified assertion failed". It passes the message to \<^verbatim>\<open>__android_log_write\<close> with
  the priority \<^verbatim>\<open>ANDROID_LOG_FATAL\<close> and never returns: when the write returns, with
  whatever result, the process traps. In a live dispatcher whose \<^verbatim>\<open>writev\<close> is not
  interrupted it traps after one \<^verbatim>\<open>writev\<close> of a record whose first segment is the byte
  of that priority; in a null dispatcher it traps with nothing written.
\<close>

theorem C7_assert_message_and_trap:
  "android_log_assert_buf cond (Some expansion) = take 1023 expansion \<and>
   android_log_assert_buf (Some c) None = take 1023 (''Assertion failed: '' @ c) \<and>
   (length c \<le> 1005 \<longrightarrow> android_log_assert_buf (Some c) None = ''Assertion failed: '' @ c) \<and>
   android_log_assert_buf (Some ''x>0'') None = ''Assertion failed: x>0'' \<and>
   android_log_assert_buf None None = ''Unspecified assertion failed'' \<and>
   android_log_assert w cond tag fmt s \<noteq> Returns r s' \<and>
   (android_log_write w ANDROID_LOG_FATAL tag (android_log_assert_buf cond fmt) s = Returns r s'
      \<longrightarrow> android_log_assert w cond tag fmt s = Trapped s') \<and>
   (write_to_log s = Fn_write_to_log_kernel \<and> \<not> interrupted (w (length (trace s))) \<longrightarrow>
      android_log_assert w cond tag fmt s =
        Trapped (s\<lparr>trace := trace s @
          [Writev
             (log_fds s ! nat (fst (android_log_write_vec ANDROID_LOG_FATAL tag
                (android_log_assert_buf cond fmt))))
             (snd (android_log_write_vec ANDROID_LOG_FATAL tag
                (android_log_assert_buf cond fmt)))]\<rparr>) \<and>
      (\<exists>t. snd (android_log_write_vec ANDROID_LOG_FATAL tag (android_log_assert_buf cond fmt)) =
         [[char_of ANDROID_LOG_FATAL], t @ [NUL], android_log_assert_buf cond fmt @ [NUL]])) \<and>
   (write_to_log s = Fn_write_to_log_null \<longrightarrow> android_log_assert w cond tag fmt s = Trapped s)"
proof (intro conjI impI)
  show "android_log_assert_buf cond (Some expansion) = take 1023 expansion"
    by (simp add: android_log_assert_buf_def snprintf_def LOG_BUF_SIZE_def)
  show "android_log_assert_buf (Some c) None = take 1023 (''Assertion failed: '' @ c)"
    by (simp add: android_log_assert_buf_def snprintf_def LOG_BUF_SIZE_def)
  show "android_log_assert_buf (Some c) None = ''Assertion failed: '' @ c"
    if "length c \<le> 1005"
    using that by (simp add: android_log_assert_buf_def snprintf_def LOG_BUF_SIZE_def)
  show "android_log_assert_buf (Some ''x>0'') None = ''Assertion failed: x>0''"
    by (simp add: android_log_assert_buf_def snprintf_def LOG_BUF_SIZE_def)
  show "android_log_assert_buf None None = ''Unspecified assertion failed''"
    by (simp add: android_log_assert_buf_def)
  show "android_log_assert w cond tag fmt s \<noteq> Returns r s'"
    by (simp add: android_log_assert_def split: outcome.splits)
  show "android_log_assert w cond tag fmt s = Trapped s'"
    if "android_log_write w ANDROID_LOG_FATAL tag (android_log_assert_buf cond fmt) s = Returns r s'"
    using that by (simp add: android_log_assert_def)
  show "android_log_assert w cond tag fmt s =
        Trapped (s\<lparr>trace := trace s @
          [Writev
             (log_fds s ! nat (fst (android_log_write_vec ANDROID_LOG_FATAL tag
                (android_log_assert_buf cond fmt))))
             (snd (android_log_write_vec ANDROID_LOG_FATAL tag
                (android_log_assert_buf cond fmt)))]\<rparr>)"
    if "write_to_log s = Fn_write_to_log_kernel \<and> \<not> interrupted (w (length (trace s)))"
    using that android_log_write_once [of s w ANDROID_LOG_FATAL tag "android_log_assert_buf cond fmt"]
    by (simp add: android_log_assert_def)
  show "\<exists>t. snd (android_log_write_vec ANDROID_LOG_FATAL tag (android_log_assert_buf cond fmt)) =
         [[char_of ANDROID_LOG_FATAL], t @ [NUL], android_log_assert_buf cond fmt @ [NUL]]"
    by (simp add: android_log_write_vec_def Let_def split: prod.splits)
  show "android_log_assert w cond tag fmt s = Trapped s"
    if "write_to_log s = Fn_write_to_log_null"
    using that
    by (simp add: android_log_assert_def android_log_write_def call_write_to_log_def
        write_to_log_null_def split: prod.splits)
qed

text \<open>
  A failed write (\<^verbatim>\<open>EIO\<close>, 5) is followed by the trap like a successful one, and so is the
  write that a null dispatcher refuses.
\<close>

theorem C7_assert_message_and_trap_witness:
  "length ''x>0'' \<le> 1005 \<and>
   \<not> interrupted (- 1, 5) \<and>
   android_log_write (\<lambda>k. (- 1, 5)) ANDROID_LOG_FATAL (Some ''T'')
     (android_log_assert_buf (Some ''x>0'') None)
     \<lparr>write_to_log = Fn_write_to_log_kernel, log_init_lock = False, log_fds = [3, 4, 5, 6],
      g_log_status = kLogUninitialized, trace = [], open_fds = {3, 4, 5, 6}\<rparr> =
   Returns (- 1)
     \<lparr>write_to_log = Fn_write_to_log_kernel, log_init_lock = False, log_fds = [3, 4, 5, 6],
      g_log_status = kLogUninitialized,
      trace = [Writev 3 [[char_of ANDROID_LOG_FATAL], ''T'' @ [NUL],
                         ''Assertion failed: x>0'' @ [NUL]]],
      open_fds = {3, 4, 5, 6}\<rparr> \<and>
   android_log_assert (\<lambda>k. (- 1, 5)) (Some ''x>0'') (Some ''T'') None
     \<lparr>write_to_log = Fn_write_to_log_kernel, log_init_lock = False, log_fds = [3, 4, 5, 6],
      g_log_status = kLogUninitialized, trace = [], open_fds = {3, 4, 5, 6}\<rparr> =
   Trapped
     \<lparr>write_to_log = Fn_write_to_log_kernel, log_init_lock = False, log_fds = [3, 4, 5, 6],
      g_log_status = kLogUninitialized,
      trace = [Writev 3 [[char_of ANDROID_LOG_FATAL], ''T'' @ [NUL],
                         ''Assertion failed: x>0'' @ [NUL]]],
      open_fds = {3, 4, 5, 6}\<rparr> \<and>
   android_log_assert (\<lambda>k. (- 1, 5)) (Some ''x>0'') (Some ''T'') None
     \<lparr>write_to_log = Fn_write_to_log_null, log_init_lock = False,
      log_fds = [- 1, - 1, - 1, - 1], g_log_status = kLogUninitialized, trace = [],
      open_fds = {}\<rparr> =
   Trapped
     \<lparr>write_to_log = Fn_write_to_log_null, log_init_lock = False,
      log_fds = [- 1, - 1, - 1, - 1], g_log_status = kLogUninitialized, trace = [],
      open_fds = {}\<rparr>"
proof -
  let ?w = "\<lambda>k::nat. (- 1 :: int, 5 :: int)"
  let ?s = "\<lparr>write_to_log = Fn_write_to_log_kernel, log_init_lock = False,
      log_fds = [3, 4, 5, 6], g_log_status = kLogUninitialized, trace = [],
      open_fds = {3, 4, 5, 6}\<rparr>"
  let ?s' = "?s\<lparr>trace := [Writev 3 [[char_of ANDROID_LOG_FATAL], ''T'' @ [NUL],
                         ''Assertion failed: x>0'' @ [NUL]]]\<rparr>"
  let ?n = "\<lparr>write_to_log = Fn_write_to_log_null, log_init_lock = False,
      log_fds = [- 1, - 1, - 1, - 1], g_log_status = kLogUninitialized, trace = [],
      open_fds = {}\<rparr>"
  have a: "length ''x>0'' \<le> 1005"
    by simp
  have b: "\<not> interrupted (- 1, 5)"
    by (simp add: interrupted_def EINTR_def)
  have c: "write_to_log ?s = Fn_write_to_log_kernel \<and> \<not> interrupted (?w (length (trace ?s)))"
    using b by simp
  have v: "android_log_write_vec ANDROID_LOG_FATAL (Some ''T'') ''Assertion failed: x>0'' =
      (LOG_ID_MAIN, [[char_of ANDROID_LOG_FATAL], ''T'' @ [NUL], ''Assertion failed: x>0'' @ [NUL]])"
    by (simp add: android_log_write_vec_def tag_tests)
  have d: "android_log_write ?w ANDROID_LOG_FATAL (Some ''T'')
     (android_log_assert_buf (Some ''x>0'') None) ?s = Returns (- 1) ?s'"
    using b
    by (simp add: android_log_assert_buf_def snprintf_def LOG_BUF_SIZE_def v
        android_log_write_def call_write_to_log_def write_to_log_kernel_def int_of_ssize_t_def log_id_defs
        writev_retry_unfold)
  have e: "write_to_log ?n = Fn_write_to_log_null"
    by simp
  from
    C7_assert_message_and_trap [of "Some ''x>0''" "[]" "''x>0''" ?w "Some ''T''" None ?s
      "- 1" ?s']
    C7_assert_message_and_trap [of "Some ''x>0''" "[]" "''x>0''" ?w "Some ''T''" None ?n
      "- 1" ?n]
    a b c d e
  show ?thesis
    by (simp add: v log_id_defs)
qed




text \<open>
  C3 as stated fails in the null state: \<^verbatim>\<open>__write_to_log_null\<close> does not look at the
  channel. After an initialisation in which every \<^verbatim>\<open>open\<close> failed, a write to the channel
  7 returns the same -1, in the same state, as a write to the main channel.
\<close>

theorem C3_counterexample:
  "call_write_to_log no_devices 7 [] initial_state =
   call_write_to_log no_devices LOG_ID_MAIN [] initial_state \<and>
   call_write_to_log no_devices 7 []
     (first_call_state no_devices initial_state) =
   call_write_to_log no_devices LOG_ID_MAIN []
     (first_call_state no_devices initial_state) \<and>
   call_write_to_log no_devices 7 []
     (first_call_state no_devices initial_state) =
   Returns (- 1) (first_call_state no_devices initial_state) \<and>
   write_to_log (first_call_state no_devices initial_state) = Fn_write_to_log_null"
proof -
  have len: "length (log_fds (initial_state\<lparr>log_init_lock := True\<rparr>)) = 4"
    by (simp add: initial_state_def)
  have null: "write_to_log (first_call_state no_devices initial_state) = Fn_write_to_log_null"
    by (simp add: first_call_state_simps block_fail(1) [OF len] no_devices_def)
  have init: "write_to_log initial_state = Fn_write_to_log_init" "\<not> log_init_lock initial_state"
    by (simp_all add: initial_state_def)
  show ?thesis
    by (simp add: call_write_to_log_def write_to_log_init_first init null write_to_log_null_def)
qed

text \<open>
  C3, amended: in the live state a write to a channel at or above \<^verbatim>\<open>LOG_ID_MAX\<close> returns
  \<^verbatim>\<open>EBADF\<close> at once, with no \<^verbatim>\<open>writev\<close> and no other change of the state; \<^verbatim>\<open>EBADF\<close> is
  not the -1 of the null state. In the null state every write returns -1 at once, with no
  \<^verbatim>\<open>writev\<close>, whatever the channel.
\<close>

theorem C3_bad_channel_in_live_state:
  "(write_to_log s = Fn_write_to_log_kernel \<and> LOG_ID_MAX \<le> log_id \<longrightarrow>
      call_write_to_log w log_id vec s = Returns EBADF s) \<and>
   EBADF \<noteq> - 1 \<and>
   (write_to_log s = Fn_write_to_log_null \<longrightarrow>
      call_write_to_log w log_id vec s = Returns (- 1) s)"
  by (simp add: call_write_to_log_def write_to_log_kernel_def write_to_log_null_def EBADF_def)

theorem C3_bad_channel_in_live_state_witness:
  "LOG_ID_MAX \<le> 4 \<and>
   call_write_to_log (\<lambda>k. (1, 0)) 4 [''x'']
     \<lparr>write_to_log = Fn_write_to_log_kernel, log_init_lock = False, log_fds = [3, 4, 5, 6],
      g_log_status = kLogUninitialized, trace = [], open_fds = {3, 4, 5, 6}\<rparr> =
   Returns 9
     \<lparr>write_to_log = Fn_write_to_log_kernel, log_init_lock = False, log_fds = [3, 4, 5, 6],
      g_log_status = kLogUninitialized, trace = [], open_fds = {3, 4, 5, 6}\<rparr> \<and>
   call_write_to_log (\<lambda>k. (1, 0)) 4 [''x'']
     \<lparr>write_to_log = Fn_write_to_log_null, log_init_lock = False, log_fds = [- 1, - 1, - 1, - 1],
      g_log_status = kLogUninitialized, trace = [], open_fds = {}\<rparr> =
   Returns (- 1)
     \<lparr>write_to_log = Fn_write_to_log_null, log_init_lock = False, log_fds = [- 1, - 1, - 1, - 1],
      g_log_status = kLogUninitialized, trace = [], open_fds = {}\<rparr>"
  using
    C3_bad_channel_in_live_state [of
      "\<lparr>write_to_log = Fn_write_to_log_kernel, log_init_lock = False, log_fds = [3, 4, 5, 6],
        g_log_status = kLogUninitialized, trace = [], open_fds = {3, 4, 5, 6}\<rparr>"
      4 "\<lambda>k. (1, 0)" "[''x'']"]
    C3_bad_channel_in_live_state [of
      "\<lparr>write_to_log = Fn_write_to_log_null, log_init_lock = False, log_fds = [- 1, - 1, - 1, - 1],
        g_log_status = kLogUninitialized, trace = [], open_fds = {}\<rparr>"
      4 "\<lambda>k. (1, 0)" "[''x'']"]
  by (simp add: LOG_ID_MAX_def EBADF_def)

lemma block_fail_open_fds:
  assumes fail: "fst (w (length (trace s))) < 0 \<or> fst (w (length (trace s) + 1)) < 0 \<or>
               fst (w (length (trace s) + 2)) < 0"
    and len: "length (log_fds s) = 4"
  shows "open_fds (write_to_log_init_block w s) =
     (open_fds s \<union>
      {fd. fd \<in> {fst (w (length (trace s))), fst (w (length (trace s) + 1)),
                  fst (w (length (trace s) + 2)), fst (w (length (trace s) + 3))} \<and> 0 \<le> fd}) -
     {fst (w (length (trace s))), fst (w (length (trace s) + 1)), fst (w (length (trace s) + 2))}"
proof -
  from len obtain a b c d where fds: "log_fds s = [a, b, c, d]"
    using length4 by blast
  show ?thesis
    using fail unfolding write_to_log_init_block_def Let_def
    by (auto simp add: open_into_simps log_close_simps fds nat_ids numeral_2_eq_2 numeral_3_eq_3)
qed

text \<open>
  C2 holds for the three descriptors that the block closes and fails for the fourth.
  Here the main device fails to open and the other three open as 4, 5 and 6. After the
  first call the dispatcher is null and the entries of Main, Radio and Events are -1, as
  the claim says; the descriptors 4 and 5 are closed; but descriptor 6, opened for the
  system device in the same block, is never closed: it is still open, and still in the
  table. The block closes three of the four descriptors it opened.
\<close>

theorem C2_system_descriptor_left_open:
  "call_write_to_log main_device_missing LOG_ID_MAIN [] initial_state =
   Returns (- 1)
     \<lparr>write_to_log = Fn_write_to_log_null, log_init_lock = False, log_fds = [- 1, - 1, - 1, 6],
      g_log_status = kLogUninitialized,
      trace = [Open (''/dev/'' @ LOGGER_LOG_MAIN), Open (''/dev/'' @ LOGGER_LOG_RADIO),
               Open (''/dev/'' @ LOGGER_LOG_EVENTS), Open (''/dev/'' @ LOGGER_LOG_SYSTEM),
               Close (- 1), Close 4, Close 5],
      open_fds = {6}\<rparr>"
  by (auto simp add: call_write_to_log_def write_to_log_init.simps pthread_mutex_lock_def
      pthread_mutex_unlock_def initial_state_def write_to_log_init_block_def Let_def
      open_into_def log_open_def log_close_def nat_ids write_to_log_null_def
      main_device_missing_def)


text \<open>
  What a first call does when one of the first three devices is missing: the dispatcher
  is null, the first three entries of the table are -1, and the three descriptors passed
  to \<^verbatim>\<open>log_close\<close> are no longer open. The fourth entry and its descriptor are left as
  \<^verbatim>\<open>open\<close> returned them.
\<close>

lemma first_call_state_fail:
  assumes len: "length (log_fds s) = 4"
    and fail: "fst (w (length (trace s))) < 0 \<or> fst (w (length (trace s) + 1)) < 0 \<or>
               fst (w (length (trace s) + 2)) < 0"
  shows "write_to_log (first_call_state w s) = Fn_write_to_log_null"
    and "log_fds (first_call_state w s) =
           [-1, -1, -1, if fst (w (length (trace s) + 3)) < 0 then -1 else fst (w (length (trace s) + 3))]"
    and "open_fds (first_call_state w s) =
     (open_fds s \<union>
      {fd. fd \<in> {fst (w (length (trace s))), fst (w (length (trace s) + 1)),
                  fst (w (length (trace s) + 2)), fst (w (length (trace s) + 3))} \<and> 0 \<le> fd}) -
     {fst (w (length (trace s))), fst (w (length (trace s) + 1)), fst (w (length (trace s) + 2))}"
  using block_fail(1,2) [of "s\<lparr>log_init_lock := True\<rparr>" w]
    block_fail_open_fds [of w "s\<lparr>log_init_lock := True\<rparr>"] len fail
  by (simp_all add: first_call_state_simps)



text \<open>
  What one thread sees between its calls. The pointer \<^verbatim>\<open>write_to_log\<close> has three values.
  Over every sequence of calls of the library from the initial state, each of which
  returns, the devices are opened not at all while the pointer is the initial function
  and exactly once, in one run of the block, when it is not. From a state in which the
  pointer is not the initial function no sequence of calls changes the pointer or the
  descriptor table, or opens a device. The first call through the initial function
  leaves the pointer at one of the other two functions. The test under the mutex is what
  keeps a late entry into \<^verbatim>\<open>__write_to_log_init\<close> from running the block again: entered
  in a state in which the pointer has already changed, the function only forwards the
  call. All this is about the states in which calls end; the states inside the block are
  the subject of the theorem after the example.
\<close>

lemma calls_initialise_at_most_once:
  "(run w cs initial_state = Some s \<longrightarrow>
      opened (trace s) = (if write_to_log s = Fn_write_to_log_init then [] else log_devices)) \<and>
   (write_to_log s1 \<noteq> Fn_write_to_log_init \<and> run w cs s1 = Some s2 \<longrightarrow>
      write_to_log s2 = write_to_log s1 \<and> log_fds s2 = log_fds s1 \<and>
      opened (trace s2) = opened (trace s1)) \<and>
   (write_to_log s1 = Fn_write_to_log_init \<and> call_write_to_log w log_id vec s1 = Returns r s2 \<longrightarrow>
      (write_to_log s2 = Fn_write_to_log_kernel \<or> write_to_log s2 = Fn_write_to_log_null) \<and>
      opened (trace s2) = opened (trace s1) @ log_devices) \<and>
   (write_to_log s1 \<noteq> Fn_write_to_log_init \<and> \<not> log_init_lock s1 \<longrightarrow>
      write_to_log_init w log_id vec s1 = call_write_to_log w log_id vec s1) \<and>
   (\<forall>f. f = Fn_write_to_log_init \<or> f = Fn_write_to_log_kernel \<or> f = Fn_write_to_log_null)"
proof (intro conjI impI allI)
  assume "run w cs initial_state = Some s"
  from run_once [OF initial_state_once this]
  show "opened (trace s) = (if write_to_log s = Fn_write_to_log_init then [] else log_devices)"
    by (simp add: initialised_once_def)
next
  assume a: "write_to_log s1 \<noteq> Fn_write_to_log_init \<and> run w cs s1 = Some s2"
  then have "unchanged s1 s2"
    using run_unchanged [of s1 w cs s2] by simp
  then show "write_to_log s2 = write_to_log s1" and "log_fds s2 = log_fds s1"
    and "opened (trace s2) = opened (trace s1)"
    by (simp_all add: unchanged_def)
next
  assume a: "write_to_log s1 = Fn_write_to_log_init \<and>
    call_write_to_log w log_id vec s1 = Returns r s2"
  then have "call_write_to_log w log_id vec (first_call_state w s1) = Returns r s2"
    using call_from_init(2) [of s1 w log_id vec r s2] by simp
  from call_unchanged(1) [OF first_call_state_not_init this]
  have u: "unchanged (first_call_state w s1) s2" .
  with first_call_state_not_init [of w s1]
  show "write_to_log s2 = Fn_write_to_log_kernel \<or> write_to_log s2 = Fn_write_to_log_null"
    by (cases "write_to_log s2") (simp_all add: unchanged_def)
  from u show "opened (trace s2) = opened (trace s1) @ log_devices"
    by (simp add: unchanged_def first_call_state_opened)
next
  assume "write_to_log s1 \<noteq> Fn_write_to_log_init \<and> \<not> log_init_lock s1"
  then show "write_to_log_init w log_id vec s1 = call_write_to_log w log_id vec s1"
    using write_to_log_init_recheck [of s1 w log_id vec] by simp
next
  fix f :: write_fn
  show "f = Fn_write_to_log_init \<or> f = Fn_write_to_log_kernel \<or> f = Fn_write_to_log_null"
    by (cases f) simp_all
qed

text \<open>
  The devices open as 10, 11 and 12 and the system device fails. One binary record
  initialises the dispatcher; a second one opens nothing more; a late entry into
  \<^verbatim>\<open>__write_to_log_init\<close> writes its record and opens nothing.
\<close>

lemma calls_initialise_at_most_once_example:
  "call_write_to_log (\<lambda>k. if k = 3 then (- 1, 2) else (int k + 10, 0)) LOG_ID_EVENTS
     [int32_bytes 1, ''p''] initial_state =
   Returns 14
     \<lparr>write_to_log = Fn_write_to_log_kernel, log_init_lock = False, log_fds = [10, 11, 12, 10],
      g_log_status = kLogUninitialized,
      trace = [Open (''/dev/'' @ LOGGER_LOG_MAIN), Open (''/dev/'' @ LOGGER_LOG_RADIO),
               Open (''/dev/'' @ LOGGER_LOG_EVENTS), Open (''/dev/'' @ LOGGER_LOG_SYSTEM),
               Writev 12 [int32_bytes 1, ''p'']],
      open_fds = {10, 11, 12}\<rparr> \<and>
   run (\<lambda>k. if k = 3 then (- 1, 2) else (int k + 10, 0)) [Log_bwrite 1 ''p''] initial_state =
   Some
     \<lparr>write_to_log = Fn_write_to_log_kernel, log_init_lock = False, log_fds = [10, 11, 12, 10],
      g_log_status = kLogUninitialized,
      trace = [Open (''/dev/'' @ LOGGER_LOG_MAIN), Open (''/dev/'' @ LOGGER_LOG_RADIO),
               Open (''/dev/'' @ LOGGER_LOG_EVENTS), Open (''/dev/'' @ LOGGER_LOG_SYSTEM),
               Writev 12 [int32_bytes 1, ''p'']],
      open_fds = {10, 11, 12}\<rparr> \<and>
   run (\<lambda>k. if k = 3 then (- 1, 2) else (int k + 10, 0)) [Log_bwrite 1 ''p'']
     \<lparr>write_to_log = Fn_write_to_log_kernel, log_init_lock = False, log_fds = [10, 11, 12, 10],
      g_log_status = kLogUninitialized,
      trace = [Open (''/dev/'' @ LOGGER_LOG_MAIN), Open (''/dev/'' @ LOGGER_LOG_RADIO),
               Open (''/dev/'' @ LOGGER_LOG_EVENTS), Open (''/dev/'' @ LOGGER_LOG_SYSTEM),
               Writev 12 [int32_bytes 1, ''p'']],
      open_fds = {10, 11, 12}\<rparr> =
   Some
     \<lparr>write_to_log = Fn_write_to_log_kernel, log_init_lock = False, log_fds = [10, 11, 12, 10],
      g_log_status = kLogUninitialized,
      trace = [Open (''/dev/'' @ LOGGER_LOG_MAIN), Open (''/dev/'' @ LOGGER_LOG_RADIO),
               Open (''/dev/'' @ LOGGER_LOG_EVENTS), Open (''/dev/'' @ LOGGER_LOG_SYSTEM),
               Writev 12 [int32_bytes 1, ''p''], Writev 12 [int32_bytes 1, ''p'']],
      open_fds = {10, 11, 12}\<rparr> \<and>
   opened [Open (''/dev/'' @ LOGGER_LOG_MAIN), Open (''/dev/'' @ LOGGER_LOG_RADIO),
           Open (''/dev/'' @ LOGGER_LOG_EVENTS), Open (''/dev/'' @ LOGGER_LOG_SYSTEM),
           Writev 12 [int32_bytes 1, ''p''], Writev 12 [int32_bytes 1, ''p'']] = log_devices \<and>
   write_to_log_init (\<lambda>k. if k = 3 then (- 1, 2) else (int k + 10, 0)) LOG_ID_RADIO [''x'']
     \<lparr>write_to_log = Fn_write_to_log_kernel, log_init_lock = False, log_fds = [10, 11, 12, 10],
      g_log_status = kLogUninitialized,
      trace = [Open (''/dev/'' @ LOGGER_LOG_MAIN), Open (''/dev/'' @ LOGGER_LOG_RADIO),
               Open (''/dev/'' @ LOGGER_LOG_EVENTS), Open (''/dev/'' @ LOGGER_LOG_SYSTEM),
               Writev 12 [int32_bytes 1, ''p'']],
      open_fds = {10, 11, 12}\<rparr> =
   Returns 15
     \<lparr>write_to_log = Fn_write_to_log_kernel, log_init_lock = False, log_fds = [10, 11, 12, 10],
      g_log_status = kLogUninitialized,
      trace = [Open (''/dev/'' @ LOGGER_LOG_MAIN), Open (''/dev/'' @ LOGGER_LOG_RADIO),
               Open (''/dev/'' @ LOGGER_LOG_EVENTS), Open (''/dev/'' @ LOGGER_LOG_SYSTEM),
               Writev 12 [int32_bytes 1, ''p''], Writev 11 [''x'']],
      open_fds = {10, 11, 12}\<rparr>"
proof -
  let ?w = "\<lambda>k::nat. if k = 3 then (- 1 :: int, 2 :: int) else (int k + 10, 0)"
  let ?opens = "[Open (''/dev/'' @ LOGGER_LOG_MAIN), Open (''/dev/'' @ LOGGER_LOG_RADIO),
               Open (''/dev/'' @ LOGGER_LOG_EVENTS), Open (''/dev/'' @ LOGGER_LOG_SYSTEM)]"
  let ?s1 = "\<lparr>write_to_log = Fn_write_to_log_kernel, log_init_lock = False,
      log_fds = [10, 11, 12, 10], g_log_status = kLogUninitialized,
      trace = ?opens @ [Writev 12 [int32_bytes 1, ''p'']], open_fds = {10, 11, 12}\<rparr>"
  let ?s2 = "\<lparr>write_to_log = Fn_write_to_log_kernel, log_init_lock = False,
      log_fds = [10, 11, 12, 10], g_log_status = kLogUninitialized,
      trace = ?opens @ [Writev 12 [int32_bytes 1, ''p''], Writev 12 [int32_bytes 1, ''p'']],
      open_fds = {10, 11, 12}\<rparr>"
  have fresh: "write_to_log initial_state = Fn_write_to_log_init"
    by (simp add: initial_state_def)
  have call: "call_write_to_log ?w LOG_ID_EVENTS [int32_bytes 1, ''p''] initial_state =
      Returns 14 ?s1"
    by (auto simp add: call_write_to_log_def write_to_log_init.simps
        pthread_mutex_lock_def pthread_mutex_unlock_def initial_state_def
        write_to_log_init_block_def Let_def open_into_def log_open_def log_close_def nat_ids
        write_to_log_kernel_def int_of_ssize_t_def log_id_defs writev_retry_unfold interrupted_def)
  have first: "run ?w [Log_bwrite 1 ''p''] initial_state = Some ?s1"
    by (simp add: android_log_bwrite_def call)
  have second: "run ?w [Log_bwrite 1 ''p''] ?s1 = Some ?s2"
    by (simp add: android_log_bwrite_def call_write_to_log_def write_to_log_kernel_def int_of_ssize_t_def
        log_id_defs writev_retry_unfold interrupted_def)
  have late: "write_to_log ?s1 \<noteq> Fn_write_to_log_init \<and> \<not> log_init_lock ?s1"
    by simp
  from
    calls_initialise_at_most_once [of ?w "[Log_bwrite 1 ''p'']" ?s1 ?s1 ?s2 LOG_ID_RADIO "[''x'']"]
    calls_initialise_at_most_once [of ?w "[Log_bwrite 1 ''p'']" ?s1 initial_state ?s1
      LOG_ID_EVENTS "[int32_bytes 1, ''p'']" 14]
    fresh call first second late
  show ?thesis
    by (simp add: call_write_to_log_def write_to_log_kernel_def int_of_ssize_t_def log_id_defs writev_retry_unfold
        interrupted_def)
qed

text \<open>
  C1 fails on the code while a device is missing. The claim allows the pointer to leave
  the initial function once and never to change after that. The block assigns the kernel
  function before it has looked at the descriptors and the null function after it has
  closed them: with the main device missing the pointer holds the initial function after
  each of the four opens, the kernel function after each of the next seven statements,
  and the null function at the end, which is the state the first call returns in. The
  callers read the pointer without the mutex. A thread that reads it after the third
  \<^verbatim>\<open>log_close\<close> finds the kernel function and a table that still holds 4 for the radio
  channel, and its write is a \<^verbatim>\<open>writev\<close> on descriptor 4, which is closed; only
  descriptor 6 is open.
\<close>

theorem C1_pointer_changed_after_leaving_init:
  "map write_to_log
     (write_to_log_init_steps main_device_missing (initial_state\<lparr>log_init_lock := True\<rparr>)) =
     [Fn_write_to_log_init, Fn_write_to_log_init, Fn_write_to_log_init, Fn_write_to_log_init,
      Fn_write_to_log_kernel, Fn_write_to_log_kernel, Fn_write_to_log_kernel,
      Fn_write_to_log_kernel, Fn_write_to_log_kernel, Fn_write_to_log_kernel,
      Fn_write_to_log_kernel, Fn_write_to_log_null] \<and>
   pthread_mutex_unlock
     (last (write_to_log_init_steps main_device_missing
        (initial_state\<lparr>log_init_lock := True\<rparr>))) =
     first_call_state main_device_missing initial_state \<and>
   call_write_to_log main_device_missing LOG_ID_MAIN [] initial_state =
     Returns (- 1) (first_call_state main_device_missing initial_state) \<and>
   write_to_log_init_steps main_device_missing (initial_state\<lparr>log_init_lock := True\<rparr>) ! 7 =
     \<lparr>write_to_log = Fn_write_to_log_kernel, log_init_lock = True, log_fds = [- 1, 4, 5, 6],
      g_log_status = kLogUninitialized,
      trace = [Open (''/dev/'' @ LOGGER_LOG_MAIN), Open (''/dev/'' @ LOGGER_LOG_RADIO),
               Open (''/dev/'' @ LOGGER_LOG_EVENTS), Open (''/dev/'' @ LOGGER_LOG_SYSTEM),
               Close (- 1), Close 4, Close 5],
      open_fds = {6}\<rparr> \<and>
   call_write_to_log main_device_missing LOG_ID_RADIO [''x'']
     \<lparr>write_to_log = Fn_write_to_log_kernel, log_init_lock = True, log_fds = [- 1, 4, 5, 6],
      g_log_status = kLogUninitialized,
      trace = [Open (''/dev/'' @ LOGGER_LOG_MAIN), Open (''/dev/'' @ LOGGER_LOG_RADIO),
               Open (''/dev/'' @ LOGGER_LOG_EVENTS), Open (''/dev/'' @ LOGGER_LOG_SYSTEM),
               Close (- 1), Close 4, Close 5],
      open_fds = {6}\<rparr> =
   Returns 10
     \<lparr>write_to_log = Fn_write_to_log_kernel, log_init_lock = True, log_fds = [- 1, 4, 5, 6],
      g_log_status = kLogUninitialized,
      trace = [Open (''/dev/'' @ LOGGER_LOG_MAIN), Open (''/dev/'' @ LOGGER_LOG_RADIO),
               Open (''/dev/'' @ LOGGER_LOG_EVENTS), Open (''/dev/'' @ LOGGER_LOG_SYSTEM),
               Close (- 1), Close 4, Close 5, Writev 4 [''x'']],
      open_fds = {6}\<rparr>"
proof (intro conjI)
  let ?s = "initial_state\<lparr>log_init_lock := True\<rparr>"
  show "map write_to_log (write_to_log_init_steps main_device_missing ?s) =
     [Fn_write_to_log_init, Fn_write_to_log_init, Fn_write_to_log_init, Fn_write_to_log_init,
      Fn_write_to_log_kernel, Fn_write_to_log_kernel, Fn_write_to_log_kernel,
      Fn_write_to_log_kernel, Fn_write_to_log_kernel, Fn_write_to_log_kernel,
      Fn_write_to_log_kernel, Fn_write_to_log_null]"
    by (simp add: write_to_log_init_steps_def Let_def initial_state_def open_into_def
        log_open_def log_close_def nat_ids main_device_missing_def)
  show "pthread_mutex_unlock (last (write_to_log_init_steps main_device_missing ?s)) =
     first_call_state main_device_missing initial_state"
    by (simp add: steps_last first_call_state_def)
  have fresh: "\<not> log_init_lock initial_state" "write_to_log initial_state = Fn_write_to_log_init"
    by (simp_all add: initial_state_def)
  have len: "length (log_fds ?s) = 4"
    by (simp add: initial_state_def)
  have missing: "fst (main_device_missing (length (trace ?s))) < 0 \<or>
      fst (main_device_missing (length (trace ?s) + 1)) < 0 \<or>
      fst (main_device_missing (length (trace ?s) + 2)) < 0"
    by (simp add: initial_state_def main_device_missing_def)
  have null: "write_to_log (first_call_state main_device_missing initial_state) =
      Fn_write_to_log_null"
    by (simp add: first_call_state_simps block_fail(1) [OF len missing])
  show "call_write_to_log main_device_missing LOG_ID_MAIN [] initial_state =
     Returns (- 1) (first_call_state main_device_missing initial_state)"
    by (simp add: call_write_to_log_def fresh write_to_log_init_first null write_to_log_null_def)
  show "write_to_log_init_steps main_device_missing ?s ! 7 =
     \<lparr>write_to_log = Fn_write_to_log_kernel, log_init_lock = True, log_fds = [- 1, 4, 5, 6],
      g_log_status = kLogUninitialized,
      trace = [Open (''/dev/'' @ LOGGER_LOG_MAIN), Open (''/dev/'' @ LOGGER_LOG_RADIO),
               Open (''/dev/'' @ LOGGER_LOG_EVENTS), Open (''/dev/'' @ LOGGER_LOG_SYSTEM),
               Close (- 1), Close 4, Close 5],
      open_fds = {6}\<rparr>"
    by (auto simp add: write_to_log_init_steps_def Let_def initial_state_def open_into_def
        log_open_def log_close_def nat_ids main_device_missing_def)
  show "call_write_to_log main_device_missing LOG_ID_RADIO [''x'']
     \<lparr>write_to_log = Fn_write_to_log_kernel, log_init_lock = True, log_fds = [- 1, 4, 5, 6],
      g_log_status = kLogUninitialized,
      trace = [Open (''/dev/'' @ LOGGER_LOG_MAIN), Open (''/dev/'' @ LOGGER_LOG_RADIO),
               Open (''/dev/'' @ LOGGER_LOG_EVENTS), Open (''/dev/'' @ LOGGER_LOG_SYSTEM),
               Close (- 1), Close 4, Close 5],
      open_fds = {6}\<rparr> =
   Returns 10
     \<lparr>write_to_log = Fn_write_to_log_kernel, log_init_lock = True, log_fds = [- 1, 4, 5, 6],
      g_log_status = kLogUninitialized,
      trace = [Open (''/dev/'' @ LOGGER_LOG_MAIN), Open (''/dev/'' @ LOGGER_LOG_RADIO),
               Open (''/dev/'' @ LOGGER_LOG_EVENTS), Open (''/dev/'' @ LOGGER_LOG_SYSTEM),
               Close (- 1), Close 4, Close 5, Writev 4 [''x'']],
      open_fds = {6}\<rparr>"
    by (simp add: call_write_to_log_def write_to_log_kernel_def int_of_ssize_t_def log_id_defs
        writev_retry_unfold interrupted_def main_device_missing_def)
qed

text \<open>
  C9: the first call of \<^verbatim>\<open>__android_log_dev_available\<close> asks \<^verbatim>\<open>access\<close> once about the
  main device and stores the answer. After it, whatever calls of the library come in
  between, a call returns what the first call returned and leaves the state as it is, so
  it makes no system call.
\<close>

theorem C9_probe_result_cached:
  "(g_log_status s = kLogUninitialized \<longrightarrow>
      android_log_dev_available w s =
        (if fst (w (length (trace s))) = 0 then 1 else 0,
         s\<lparr>trace := trace s @ [Access (''/dev/'' @ LOGGER_LOG_MAIN)],
           g_log_status := (if fst (w (length (trace s))) = 0 then kLogAvailable
                            else kLogNotAvailable)\<rparr>)) \<and>
   (android_log_dev_available w s = (b, s1) \<and> run w cs s1 = Some s2 \<longrightarrow>
      android_log_dev_available w s2 = (b, s2))"
proof (intro conjI impI)
  assume "g_log_status s = kLogUninitialized"
  then show "android_log_dev_available w s =
        (if fst (w (length (trace s))) = 0 then 1 else 0,
         s\<lparr>trace := trace s @ [Access (''/dev/'' @ LOGGER_LOG_MAIN)],
           g_log_status := (if fst (w (length (trace s))) = 0 then kLogAvailable
                            else kLogNotAvailable)\<rparr>)"
    by (rule dev_available_first)
next
  assume a: "android_log_dev_available w s = (b, s1) \<and> run w cs s1 = Some s2"
  then have first: "android_log_dev_available w s = (b, s1)" and later: "run w cs s1 = Some s2"
    by simp_all
  note known = dev_available_Returns(2,3) [OF first]
  from run_status [OF known(1) later] have "g_log_status s2 = g_log_status s1" .
  with known show "android_log_dev_available w s2 = (b, s2)"
    by (simp add: dev_available_cached)
qed

text \<open>
  The device is not writable at the first call; a text record is written in between.
\<close>

theorem C9_probe_result_cached_witness:
  "android_log_dev_available (\<lambda>k. if k = 0 then (- 1, 13) else (int k + 10, 0)) initial_state =
     (0, initial_state\<lparr>trace := [Access (''/dev/'' @ LOGGER_LOG_MAIN)],
                       g_log_status := kLogNotAvailable\<rparr>) \<and>
   run (\<lambda>k. if k = 0 then (- 1, 13) else (int k + 10, 0)) [Log_bwrite 1 ''p'']
     (initial_state\<lparr>trace := [Access (''/dev/'' @ LOGGER_LOG_MAIN)],
                    g_log_status := kLogNotAvailable\<rparr>) =
   Some
     \<lparr>write_to_log = Fn_write_to_log_kernel, log_init_lock = False, log_fds = [11, 12, 13, 14],
      g_log_status = kLogNotAvailable,
      trace = [Access (''/dev/'' @ LOGGER_LOG_MAIN),
               Open (''/dev/'' @ LOGGER_LOG_MAIN), Open (''/dev/'' @ LOGGER_LOG_RADIO),
               Open (''/dev/'' @ LOGGER_LOG_EVENTS), Open (''/dev/'' @ LOGGER_LOG_SYSTEM),
               Writev 13 [int32_bytes 1, ''p'']],
      open_fds = {11, 12, 13, 14}\<rparr> \<and>
   android_log_dev_available (\<lambda>k. if k = 0 then (- 1, 13) else (int k + 10, 0))
     \<lparr>write_to_log = Fn_write_to_log_kernel, log_init_lock = False, log_fds = [11, 12, 13, 14],
      g_log_status = kLogNotAvailable,
      trace = [Access (''/dev/'' @ LOGGER_LOG_MAIN),
               Open (''/dev/'' @ LOGGER_LOG_MAIN), Open (''/dev/'' @ LOGGER_LOG_RADIO),
               Open (''/dev/'' @ LOGGER_LOG_EVENTS), Open (''/dev/'' @ LOGGER_LOG_SYSTEM),
               Writev 13 [int32_bytes 1, ''p'']],
      open_fds = {11, 12, 13, 14}\<rparr> =
   (0,
     \<lparr>write_to_log = Fn_write_to_log_kernel, log_init_lock = False, log_fds = [11, 12, 13, 14],
      g_log_status = kLogNotAvailable,
      trace = [Access (''/dev/'' @ LOGGER_LOG_MAIN),
               Open (''/dev/'' @ LOGGER_LOG_MAIN), Open (''/dev/'' @ LOGGER_LOG_RADIO),
               Open (''/dev/'' @ LOGGER_LOG_EVENTS), Open (''/dev/'' @ LOGGER_LOG_SYSTEM),
               Writev 13 [int32_bytes 1, ''p'']],
      open_fds = {11, 12, 13, 14}\<rparr>)"
proof -
  let ?w = "\<lambda>k::nat. if k = 0 then (- 1 :: int, 13 :: int) else (int k + 10, 0)"
  let ?s1 = "initial_state\<lparr>trace := [Access (''/dev/'' @ LOGGER_LOG_MAIN)],
                       g_log_status := kLogNotAvailable\<rparr>"
  let ?s2 = "\<lparr>write_to_log = Fn_write_to_log_kernel, log_init_lock = False,
      log_fds = [11, 12, 13, 14], g_log_status = kLogNotAvailable,
      trace = [Access (''/dev/'' @ LOGGER_LOG_MAIN),
               Open (''/dev/'' @ LOGGER_LOG_MAIN), Open (''/dev/'' @ LOGGER_LOG_RADIO),
               Open (''/dev/'' @ LOGGER_LOG_EVENTS), Open (''/dev/'' @ LOGGER_LOG_SYSTEM),
               Writev 13 [int32_bytes 1, ''p'']],
      open_fds = {11, 12, 13, 14}\<rparr>"
  have fresh: "g_log_status initial_state = kLogUninitialized"
    by (simp add: initial_state_def)
  from C9_probe_result_cached [of initial_state ?w, THEN conjunct1, rule_format, OF fresh]
  have first: "android_log_dev_available ?w initial_state = (0, ?s1)"
    by (simp add: initial_state_def)
  have later: "run ?w [Log_bwrite 1 ''p''] ?s1 = Some ?s2"
    by (auto simp add: android_log_bwrite_def call_write_to_log_def write_to_log_init.simps
        pthread_mutex_lock_def pthread_mutex_unlock_def initial_state_def
        write_to_log_init_block_def Let_def open_into_def log_open_def log_close_def nat_ids
        write_to_log_kernel_def int_of_ssize_t_def log_id_defs writev_retry_unfold interrupted_def)
  from C9_probe_result_cached [of initial_state ?w 0 ?s1 "[Log_bwrite 1 ''p'']" ?s2] first later
  show ?thesis
    by simp
qed

end
